theory Spec2Isabelle
  imports Main "HOL-Library.Sublist" "HOL-Library.Word"
begin

section \<open>JavaScript strings\<close>

text \<open>
  A JavaScript string is a sequence of UTF-16 code units. The model takes \<open>string\<close>
  (a list of 8-bit characters), which stands for the strings whose code units lie in the
  range 0..255 (ASCII and Latin-1): \<open>length\<close> counts code units, as \<open>.length\<close> does.
  Every literal of the handlers and of the helper module is ASCII.
\<close>

definition in_range :: "char \<Rightarrow> char \<Rightarrow> char \<Rightarrow> bool" where
  "in_range lo hi c = ((of_char lo :: nat) \<le> of_char c \<and> (of_char c :: nat) \<le> of_char hi)"

text \<open>The character classes of the regular expressions in \<open>helper.ts\<close>.\<close>

definition cls_upper :: "char \<Rightarrow> bool" where \<comment> \<open>\<open>[A-Z]\<close>\<close>
  "cls_upper c = in_range CHR ''A'' CHR ''Z'' c"

definition cls_lower :: "char \<Rightarrow> bool" where \<comment> \<open>\<open>[a-z]\<close>\<close>
  "cls_lower c = in_range CHR ''a'' CHR ''z'' c"

definition cls_digit :: "char \<Rightarrow> bool" where \<comment> \<open>\<open>[0-9]\<close>\<close>
  "cls_digit c = in_range CHR ''0'' CHR ''9'' c"

definition cls_symbol :: "char \<Rightarrow> bool" where \<comment> \<open>\<open>[^A-Za-z0-9]\<close>\<close>
  "cls_symbol c = (\<not> (cls_upper c \<or> cls_lower c \<or> cls_digit c))"

definition cls_space :: "char \<Rightarrow> bool" where
  \<comment> \<open>\<open>\s\<close> on the code units 0..255: TAB, LF, VT, FF, CR, space and the no-break space\<close>
  "cls_space c = ((of_char c :: nat) \<in> {9, 10, 11, 12, 13, 32, 160})"

definition cls_segment :: "char \<Rightarrow> bool" where \<comment> \<open>\<open>[^\s@]\<close>\<close>
  "cls_segment c = (\<not> (cls_space c \<or> c = CHR ''@''))"

definition test_class :: "(char \<Rightarrow> bool) \<Rightarrow> string \<Rightarrow> bool" where
  \<comment> \<open>\<open>/[cls]/.test(s)\<close>: an unanchored one-character pattern matches when some
      code unit of \<open>s\<close> is in the class\<close>
  "test_class cls s = list_ex cls s"

section \<open>Regular expressions matched against a whole string\<close>

datatype regex =
    Zero
  | One
  | Atom "char \<Rightarrow> bool"
  | Alt regex regex
  | Times regex regex
  | Star regex

definition plus :: "regex \<Rightarrow> regex" where \<comment> \<open>the quantifier \<open>+\<close>\<close>
  "plus r = Times r (Star r)"

fun nullable :: "regex \<Rightarrow> bool" where
  "nullable Zero = False"
| "nullable One = True"
| "nullable (Atom P) = False"
| "nullable (Alt r s) = (nullable r \<or> nullable s)"
| "nullable (Times r s) = (nullable r \<and> nullable s)"
| "nullable (Star r) = True"

fun deriv :: "char \<Rightarrow> regex \<Rightarrow> regex" where
  "deriv c Zero = Zero"
| "deriv c One = Zero"
| "deriv c (Atom P) = (if P c then One else Zero)"
| "deriv c (Alt r s) = Alt (deriv c r) (deriv c s)"
| "deriv c (Times r s) =
     (if nullable r then Alt (Times (deriv c r) s) (deriv c s) else Times (deriv c r) s)"
| "deriv c (Star r) = Times (deriv c r) (Star r)"

fun matches :: "regex \<Rightarrow> string \<Rightarrow> bool" where
  \<comment> \<open>\<open>/^r$/.test(s)\<close>: the pattern must match all of \<open>s\<close>\<close>
  "matches r [] = nullable r"
| "matches r (c # cs) = matches (deriv c r) cs"

text \<open>The words a pattern matches, to state what \<open>matches\<close> computes.\<close>

definition conc :: "string set \<Rightarrow> string set \<Rightarrow> string set" where
  "conc A B = {a @ b | a b. a \<in> A \<and> b \<in> B}"

inductive_set star :: "string set \<Rightarrow> string set" for A :: "string set" where
  star_Nil: "[] \<in> star A"
| star_step: "a \<in> A \<Longrightarrow> w \<in> star A \<Longrightarrow> a @ w \<in> star A"

fun lang :: "regex \<Rightarrow> string set" where
  "lang Zero = {}"
| "lang One = {[]}"
| "lang (Atom P) = {[c] | c. P c}"
| "lang (Alt r s) = lang r \<union> lang s"
| "lang (Times r s) = conc (lang r) (lang s)"
| "lang (Star r) = star (lang r)"

section \<open>Validators (\<open>utils/helper.ts\<close>)\<close>

record ValidationResult =
  valid :: bool
  errors :: "string list"

definition validatePassword :: "string \<Rightarrow> ValidationResult" where
  "validatePassword password =
    (let errors0 = [];
         errors1 = (if password = [] \<or> length password < 12
                    then errors0 @ [''Password must be at least 12 characters''] else errors0);
         errors2 = (if \<not> test_class cls_upper password
                    then errors1 @ [''Password must contain uppercase letters''] else errors1);
         errors3 = (if \<not> test_class cls_lower password
                    then errors2 @ [''Password must contain lowercase letters''] else errors2);
         errors4 = (if \<not> test_class cls_digit password
                    then errors3 @ [''Password must contain numbers''] else errors3);
         errors5 = (if \<not> test_class cls_symbol password
                    then errors4 @ [''Password must contain symbols''] else errors4)
     in \<lparr>valid = (length errors5 = 0), errors = errors5\<rparr>)"

definition emailRegex :: regex where
  \<comment> \<open>\<open>/^[^\s@]+@[^\s@]+\.[^\s@]+$/\<close>\<close>
  "emailRegex =
     Times (plus (Atom cls_segment))
       (Times (Atom (\<lambda>c. c = CHR ''@''))
         (Times (plus (Atom cls_segment))
           (Times (Atom (\<lambda>c. c = CHR ''.''))
             (plus (Atom cls_segment)))))"

definition validateEmail :: "string \<Rightarrow> bool" where
  "validateEmail email = (if email = [] then False else matches emailRegex email)"

section \<open>String operations of the runtime\<close>

definition toLowerCase_unit :: "char \<Rightarrow> char" where
  \<comment> \<open>\<open>A\<close>..\<open>Z\<close> and the Latin-1 capitals 192..222 (without the multiplication sign 215)
      have their lower-case form 32 code units later\<close>
  "toLowerCase_unit c =
     (let n = (of_char c :: nat)
      in if (65 \<le> n \<and> n \<le> 90) \<or> (192 \<le> n \<and> n \<le> 222 \<and> n \<noteq> 215) then char_of (n + 32) else c)"

definition toLowerCase :: "string \<Rightarrow> string" where
  "toLowerCase s = map toLowerCase_unit s"

definition canonicalize :: "char \<Rightarrow> char" where
  \<comment> \<open>the case folding of a pattern with the flag \<open>i\<close> (and without \<open>u\<close>): the upper-case
      form when that is one code unit; no code unit from 128 on folds to an ASCII one\<close>
  "canonicalize c =
     (let n = (of_char c :: nat)
      in if (97 \<le> n \<and> n \<le> 122) \<or> (224 \<le> n \<and> n \<le> 254 \<and> n \<noteq> 247) then char_of (n - 32) else c)"

fun matches_at :: "string \<Rightarrow> string \<Rightarrow> bool" where
  \<comment> \<open>a literal pattern with flag \<open>i\<close> matches at the start of the text\<close>
  "matches_at [] cs = True"
| "matches_at (p # ps) [] = False"
| "matches_at (p # ps) (c # cs) = (canonicalize p = canonicalize c \<and> matches_at ps cs)"

fun replace_gi :: "string \<Rightarrow> string \<Rightarrow> string \<Rightarrow> string" where
  \<comment> \<open>\<open>text.replace(/pat/gi, rep)\<close> for a literal, non-empty pattern: the matches are taken
      from left to right, each search resuming behind the previous match\<close>
  "replace_gi pat rep [] = []"
| "replace_gi pat rep (c # cs) =
     (if pat \<noteq> [] \<and> matches_at pat (c # cs)
      then rep @ replace_gi pat rep (drop (length pat - 1) cs)
      else c # replace_gi pat rep cs)"

fun join :: "string \<Rightarrow> string list \<Rightarrow> string" where
  "join sep [] = []"
| "join sep [x] = x"
| "join sep (x # y # ys) = x @ sep @ join sep (y # ys)"

fun split_from :: "char \<Rightarrow> string \<Rightarrow> string \<Rightarrow> string list" where
  \<comment> \<open>the second argument is the piece collected so far\<close>
  "split_from sep piece [] = [piece]"
| "split_from sep piece (c # cs) =
     (if c = sep then piece # split_from sep [] cs else split_from sep (piece @ [c]) cs)"

definition split :: "char \<Rightarrow> string \<Rightarrow> string list" where
  \<comment> \<open>\<open>s.split(sep)\<close> for a one-character separator\<close>
  "split sep s = split_from sep [] s"

definition startsWith :: "string \<Rightarrow> string \<Rightarrow> bool" where
  "startsWith s p = (take (length p) s = p)"

definition trim :: "string \<Rightarrow> string" where
  "trim s = rev (dropWhile cls_space (rev (dropWhile cls_space s)))"

section \<open>Values and \<open>JSON.stringify\<close>\<close>

text \<open>
  A number of the model is an integer from \<open>-2^53\<close> to \<open>2^53 - 1\<close>, kept as a word of
  54 bits that is read with its sign (\<open>sint\<close>). These are numbers of the runtime, which
  prints each of them as its decimal digits. The one number the handlers serialise is
  \<open>expiresIn\<close>, a count of seconds.
\<close>

type_synonym safe_int = "54 word"

text \<open>
  The values that reach \<open>JSON.stringify\<close>. An object is the list of its own properties
  in enumeration order.
\<close>

datatype jsval =
    JUndefined
  | JNull
  | JBool bool
  | JNum safe_int
  | JStr string
  | JArr "jsval list"
  | JObj "(string \<times> jsval) list"

definition digit_char :: "nat \<Rightarrow> char" where
  "digit_char d = char_of (48 + d)"

function decimal_digits :: "int \<Rightarrow> string" where
  \<comment> \<open>the decimal digits of an integer that is not negative\<close>
  "decimal_digits n =
     (if n < 10 then [digit_char (nat n)]
      else decimal_digits (n div 10) @ [digit_char (nat (n mod 10))])"
  by pat_completeness auto

termination decimal_digits
  by (relation "measure nat") auto

declare decimal_digits.simps [simp del]

definition Number_toString :: "safe_int \<Rightarrow> string" where
  \<comment> \<open>the decimal digits, behind a minus sign when the number is negative\<close>
  "Number_toString n =
     (if sint n < 0 then CHR ''-'' # decimal_digits (- sint n) else decimal_digits (sint n))"

definition hex_char :: "nat \<Rightarrow> char" where
  "hex_char d = (if d < 10 then char_of (48 + d) else char_of (87 + d))"

definition quote_unit :: "char \<Rightarrow> string" where
  \<comment> \<open>one code unit inside a JSON string literal\<close>
  "quote_unit c =
     (let n = (of_char c :: nat)
      in if n = 34 then [CHR 0x5C, CHR 0x22]
         else if n = 92 then [CHR 0x5C, CHR 0x5C]
         else if n = 8 then [CHR 0x5C, CHR ''b'']
         else if n = 12 then [CHR 0x5C, CHR ''f'']
         else if n = 10 then [CHR 0x5C, CHR ''n'']
         else if n = 13 then [CHR 0x5C, CHR ''r'']
         else if n = 9 then [CHR 0x5C, CHR ''t'']
         else if n < 32 then [CHR 0x5C, CHR ''u'', CHR ''0'', CHR ''0'', hex_char (n div 16), hex_char (n mod 16)]
         else [c])"

definition quote :: "string \<Rightarrow> string" where
  "quote s = CHR 0x22 # concat (map quote_unit s) @ [CHR 0x22]"

fun serialize :: "jsval \<Rightarrow> string option"
  and serialize_elements :: "jsval list \<Rightarrow> string list"
  and serialize_members :: "(string \<times> jsval) list \<Rightarrow> string list" where
  "serialize JUndefined = None"
| "serialize JNull = Some ''null''"
| "serialize (JBool b) = Some (if b then ''true'' else ''false'')"
| "serialize (JNum n) = Some (Number_toString n)"
| "serialize (JStr s) = Some (quote s)"
| "serialize (JArr xs) = Some (''['' @ join '','' (serialize_elements xs) @ '']'')"
| "serialize (JObj kvs) = Some (''{'' @ join '','' (serialize_members kvs) @ ''}'')"
| "serialize_elements [] = []"
| "serialize_elements (x # xs) =
     (case serialize x of None \<Rightarrow> ''null'' | Some t \<Rightarrow> t) # serialize_elements xs"
| "serialize_members [] = []"
| "serialize_members ((k, v) # kvs) =
     (case serialize v of None \<Rightarrow> serialize_members kvs
      | Some t \<Rightarrow> (quote k @ '':'' @ t) # serialize_members kvs)"

definition JSON_stringify :: "jsval \<Rightarrow> string option" where
  \<comment> \<open>\<open>None\<close> is the result \<open>undefined\<close>\<close>
  "JSON_stringify v = serialize v"

section \<open>\<open>JSON.parse\<close>\<close>

text \<open>
  The parser of the runtime, as a recursive-descent parser of the JSON grammar. A parsing
  function returns the value it read and the rest of the text, or \<open>Syntax_error\<close> where the
  runtime throws a \<open>SyntaxError\<close>, or \<open>Unmodelled\<close> where the model says nothing: at a
  number with a fraction or an exponent, a number that is not a number of the model
  (\<open>-0\<close> is one), and a \<open>\u\<close> escape beyond 255. The parser of values takes fuel, one
  unit for each value, element and member it enters, and says nothing when it runs out;
  \<open>JSON_parse\<close> gives it more than the length of the text, which is enough for every text
  that \<open>JSON.stringify\<close> writes (\<open>weight_length\<close> below).
\<close>

datatype 'a parsed = Syntax_error | Unmodelled | Parsed 'a

definition json_ws :: "char \<Rightarrow> bool" where
  "json_ws c = ((of_char c :: nat) \<in> {32, 9, 10, 13})"





definition and_then :: "'a parsed \<Rightarrow> ('a \<Rightarrow> 'b parsed) \<Rightarrow> 'b parsed" where
  "and_then p f = (case p of Syntax_error \<Rightarrow> Syntax_error | Unmodelled \<Rightarrow> Unmodelled | Parsed x \<Rightarrow> f x)"











section \<open>Values of a request body, and the validators called with them\<close>

text \<open>
  A property that a handler reads from the parsed request body is \<open>undefined\<close> (\<open>None\<close>)
  or a scalar of JSON: a string, a number (an integer as above), a boolean or \<open>null\<close>. The
  request interfaces declare strings, but the handlers run on whatever the body holds. A
  property whose value is an array or an object is outside the model.
\<close>

datatype scalar = Str string | Num safe_int | Bool bool | Null

fun truthy_value :: "scalar option \<Rightarrow> bool" where \<comment> \<open>\<open>!!v\<close>\<close>
  "truthy_value None = False"
| "truthy_value (Some (Str s)) = (s \<noteq> [])"
| "truthy_value (Some (Num n)) = (n \<noteq> 0)"
| "truthy_value (Some (Bool b)) = b"
| "truthy_value (Some Null) = False"

fun typeof :: "scalar option \<Rightarrow> string" where
  "typeof None = ''undefined''"
| "typeof (Some (Str s)) = ''string''"
| "typeof (Some (Num n)) = ''number''"
| "typeof (Some (Bool b)) = ''boolean''"
| "typeof (Some Null) = ''object''"

fun ToString :: "scalar option \<Rightarrow> string" where
  \<comment> \<open>the conversion that \<open>regex.test(v)\<close> applies to its argument\<close>
  "ToString None = ''undefined''"
| "ToString (Some (Str s)) = s"
| "ToString (Some (Num n)) = Number_toString n"
| "ToString (Some (Bool b)) = (if b then ''true'' else ''false'')"
| "ToString (Some Null) = ''null''"

fun length_of :: "scalar option \<Rightarrow> nat option" where
  \<comment> \<open>\<open>v.length\<close> for a value that is neither \<open>undefined\<close> nor \<open>null\<close>: the length of a
      string; a number and a boolean have no such property, the result is \<open>undefined\<close>\<close>
  "length_of (Some (Str s)) = Some (length s)"
| "length_of v = None"

definition less_than_js :: "nat option \<Rightarrow> nat \<Rightarrow> bool" where
  \<comment> \<open>\<open>x < n\<close>; \<open>undefined < n\<close> is \<open>false\<close>\<close>
  "less_than_js x n = (case x of None \<Rightarrow> False | Some m \<Rightarrow> m < n)"

definition string_of :: "scalar option \<Rightarrow> string" where
  \<comment> \<open>the string behind a value whose \<open>typeof\<close> is \<open>string\<close>\<close>
  "string_of v = (case v of Some (Str s) \<Rightarrow> s | _ \<Rightarrow> [])"

text \<open>
  \<open>validatePassword\<close> and \<open>validateEmail\<close> as the handlers call them, with the property of
  the body: the same statements as above, on a value that need not be a string.
\<close>

definition validatePassword_value :: "scalar option \<Rightarrow> ValidationResult" where
  "validatePassword_value password =
    (let errors0 = [];
         errors1 = (if \<not> truthy_value password \<or> less_than_js (length_of password) 12
                    then errors0 @ [''Password must be at least 12 characters''] else errors0);
         errors2 = (if \<not> test_class cls_upper (ToString password)
                    then errors1 @ [''Password must contain uppercase letters''] else errors1);
         errors3 = (if \<not> test_class cls_lower (ToString password)
                    then errors2 @ [''Password must contain lowercase letters''] else errors2);
         errors4 = (if \<not> test_class cls_digit (ToString password)
                    then errors3 @ [''Password must contain numbers''] else errors3);
         errors5 = (if \<not> test_class cls_symbol (ToString password)
                    then errors4 @ [''Password must contain symbols''] else errors4)
     in \<lparr>valid = (length errors5 = 0), errors = errors5\<rparr>)"

definition validateEmail_value :: "scalar option \<Rightarrow> bool" where
  "validateEmail_value email =
     (if \<not> truthy_value email then False else matches emailRegex (ToString email))"

section \<open>Response formatter (\<open>utils/helper.ts\<close>)\<close>

record js_error =
  name :: "string option"
  message :: string

definition new_Error :: "string \<Rightarrow> js_error" where
  "new_Error msg = \<lparr>name = Some ''Error'', message = msg\<rparr>"

record APIGatewayResponse =
  statusCode :: int
  headers :: "(string \<times> string) list"
  body :: "string option"

definition response_headers :: "(string \<times> string) list" where
  "response_headers =
     [(''Content-Type'', ''application/json''), (''Access-Control-Allow-Origin'', ''*'')]"

definition sanitize :: "string \<Rightarrow> string" where
  "sanitize msg =
     replace_gi ''session'' ''[REDACTED]''
       (replace_gi ''token'' ''[REDACTED]''
         (replace_gi ''password'' ''[REDACTED]'' msg))"

definition formatErrorResponse :: "js_error \<Rightarrow> int \<Rightarrow> APIGatewayResponse" where
  "formatErrorResponse error status =
     (let sanitizedMessage = sanitize (message error)
      in \<lparr>statusCode = status,
          headers = response_headers,
          body = JSON_stringify
            (JObj [(''error'',
               JObj [(''code'', JStr (case name error of None \<Rightarrow> ''InternalError''
                                      | Some n \<Rightarrow> if n = [] then ''InternalError'' else n)),
                     (''message'', JStr sanitizedMessage)])])\<rparr>)"

definition formatSuccessResponse :: "jsval \<Rightarrow> int \<Rightarrow> APIGatewayResponse" where
  "formatSuccessResponse data status =
     \<lparr>statusCode = status, headers = response_headers, body = JSON_stringify data\<rparr>"

section \<open>Identity gateway client (\<open>class/Cognito.ts\<close>)\<close>

text \<open>
  The provider's SDK is outside the repository: \<open>cognitoClient.send(command)\<close> is a parameter
  of the model, a function from the command to either the error it rejects with or the
  response it resolves to. A value that may be \<open>undefined\<close> is an option.
\<close>

record CognitoConfig =
  userPoolId :: string
  clientId :: string
  region :: string

type_synonym param = "scalar option"
  \<comment> \<open>a parameter that a handler takes from the request body and hands on as it is\<close>

datatype sdk_command =
    SignUpCommand string param param "(string \<times> param) list"
      \<comment> \<open>ClientId, Username, Password, UserAttributes\<close>
  | ConfirmSignUpCommand string param param
      \<comment> \<open>ClientId, Username, ConfirmationCode\<close>
  | InitiateAuthCommand string param param
      \<comment> \<open>ClientId, USERNAME, PASSWORD (AuthFlow USER_PASSWORD_AUTH)\<close>
  | RespondToAuthChallengeCommand string param param param
      \<comment> \<open>ClientId, Session, USERNAME, SMS_MFA_CODE (ChallengeName SMS_MFA)\<close>
  | ChangePasswordCommand param param param
      \<comment> \<open>PreviousPassword, ProposedPassword, AccessToken\<close>
  | ConfirmForgotPasswordCommand string param param param
      \<comment> \<open>ClientId, Username, ConfirmationCode, Password\<close>
  | ForgotPasswordCommand string param
      \<comment> \<open>ClientId, Username\<close>

record CodeDeliveryDetailsType =
  Destination :: "string option"
  DeliveryMedium :: "string option"
  AttributeName :: "string option"

record AuthenticationResultType =
  AccessToken :: "string option"
  IdToken :: "string option"
  RefreshToken :: "string option"
  ExpiresIn :: "safe_int option"
  TokenType :: "string option"

record sdk_output =
  UserSub :: "string option"
  CodeDeliveryDetails :: "CodeDeliveryDetailsType option"
  ChallengeName :: "string option"
  Session :: "string option"
  AuthenticationResult :: "AuthenticationResultType option"

type_synonym sdk_send = "sdk_command \<Rightarrow> js_error + sdk_output"

type_synonym aws = "string \<Rightarrow> sdk_send"
  \<comment> \<open>\<open>new CognitoIdentityProviderClient({region})\<close>, then \<open>send\<close>\<close>

record Cognito =
  config :: CognitoConfig
  cognitoClient :: sdk_send

definition new_Cognito :: "aws \<Rightarrow> CognitoConfig \<Rightarrow> Cognito" where
  "new_Cognito provider cfg = \<lparr>config = cfg, cognitoClient = provider (region cfg)\<rparr>"

definition truthy :: "string option \<Rightarrow> bool" where
  \<comment> \<open>\<open>!!v\<close> for a value that is a string or \<open>undefined\<close>\<close>
  "truthy v = (case v of None \<Rightarrow> False | Some t \<Rightarrow> t \<noteq> [])"

definition or_else :: "string option \<Rightarrow> string \<Rightarrow> string" where
  \<comment> \<open>\<open>v || d\<close>\<close>
  "or_else v d = (case v of None \<Rightarrow> d | Some t \<Rightarrow> if t = [] then d else t)"

definition str :: "string option \<Rightarrow> string" where
  \<comment> \<open>the string behind a value that has passed a truthiness check\<close>
  "str v = (case v of None \<Rightarrow> [] | Some t \<Rightarrow> t)"

definition tokens :: "sdk_output \<Rightarrow> jsval" where
  \<comment> \<open>the \<open>LoginResponse\<close> object that \<open>login\<close> and \<open>confirmMFA\<close> build\<close>
  "tokens response =
     (let auth = AuthenticationResult response
      in JObj
        [(''accessToken'', JStr (or_else (case auth of None \<Rightarrow> None | Some a \<Rightarrow> AccessToken a) [])),
         (''idToken'', JStr (or_else (case auth of None \<Rightarrow> None | Some a \<Rightarrow> IdToken a) [])),
         (''refreshToken'', JStr (or_else (case auth of None \<Rightarrow> None | Some a \<Rightarrow> RefreshToken a) [])),
         (''expiresIn'', JNum (case auth of None \<Rightarrow> 0
                               | Some a \<Rightarrow> (case ExpiresIn a of None \<Rightarrow> 0 | Some n \<Rightarrow> n))),
         (''tokenType'', JStr (or_else (case auth of None \<Rightarrow> None | Some a \<Rightarrow> TokenType a) ''Bearer''))])"

definition signUp ::
  "Cognito \<Rightarrow> param \<Rightarrow> param \<Rightarrow> param \<Rightarrow> (string \<times> string) list option \<Rightarrow> js_error + jsval" where
  \<comment> \<open>\<open>params\<close>: username, password, email, attributes\<close>
  "signUp this username password email attributes =
     (let userAttributes =
            [(''email'', email)] @
            (case attributes of None \<Rightarrow> [] | Some kvs \<Rightarrow> map (\<lambda>(key, v). (key, Some (Str v))) kvs)
      in case cognitoClient this
                (SignUpCommand (clientId (config this)) username password userAttributes) of
           Inl e \<Rightarrow> Inl e
         | Inr response \<Rightarrow>
             (let details = CodeDeliveryDetails response
              in Inr (JObj
                [(''userSub'', (case UserSub response of None \<Rightarrow> JUndefined | Some u \<Rightarrow> JStr u)),
                 (''codeDeliveryDetails'', JObj
                   [(''destination'',
                       JStr (or_else (case details of None \<Rightarrow> None | Some d \<Rightarrow> Destination d) [])),
                    (''deliveryMedium'',
                       JStr (or_else (case details of None \<Rightarrow> None | Some d \<Rightarrow> DeliveryMedium d) [])),
                    (''attributeName'',
                       JStr (or_else (case details of None \<Rightarrow> None | Some d \<Rightarrow> AttributeName d) []))])])))"

definition verifyCode :: "Cognito \<Rightarrow> param \<Rightarrow> param \<Rightarrow> js_error + jsval" where
  \<comment> \<open>\<open>params\<close>: username, code\<close>
  "verifyCode this username code =
     (case cognitoClient this (ConfirmSignUpCommand (clientId (config this)) username code) of
        Inl e \<Rightarrow> Inl e
      | Inr response \<Rightarrow> Inr JUndefined)"

definition login :: "Cognito \<Rightarrow> param \<Rightarrow> param \<Rightarrow> js_error + jsval" where
  \<comment> \<open>\<open>params\<close>: username, password\<close>
  "login this username password =
     (case cognitoClient this (InitiateAuthCommand (clientId (config this)) username password) of
        Inl e \<Rightarrow> Inl e
      | Inr response \<Rightarrow>
          if truthy (ChallengeName response)
          then Inl (new_Error (''MFA_REQUIRED:'' @
                 (case Session response of None \<Rightarrow> ''undefined'' | Some t \<Rightarrow> t)))
          else Inr (tokens response))"

definition confirmMFA :: "Cognito \<Rightarrow> param \<Rightarrow> param \<Rightarrow> param \<Rightarrow> js_error + jsval" where
  \<comment> \<open>\<open>params\<close>: session, mfaCode, username\<close>
  "confirmMFA this session mfaCode username =
     (case cognitoClient this
             (RespondToAuthChallengeCommand (clientId (config this)) session username mfaCode) of
        Inl e \<Rightarrow> Inl e
      | Inr response \<Rightarrow> Inr (tokens response))"

definition setNewPassword ::
  "Cognito \<Rightarrow> param \<Rightarrow> param \<Rightarrow> param \<Rightarrow> param \<Rightarrow> js_error + jsval" where
  \<comment> \<open>\<open>params\<close>: username, previousPassword, proposedPassword, session\<close>
  "setNewPassword this username previousPassword proposedPassword session =
     (case cognitoClient this (ChangePasswordCommand previousPassword proposedPassword session) of
        Inl e \<Rightarrow> Inl e
      | Inr response \<Rightarrow> Inr JUndefined)"

definition resetPassword :: "Cognito \<Rightarrow> param \<Rightarrow> param \<Rightarrow> param \<Rightarrow> js_error + jsval" where
  \<comment> \<open>\<open>params\<close>: username, code, newPassword\<close>
  "resetPassword this username code newPassword =
     (case cognitoClient this
             (ConfirmForgotPasswordCommand (clientId (config this)) username code newPassword) of
        Inl e \<Rightarrow> Inl e
      | Inr response \<Rightarrow> Inr JUndefined)"

definition initiatePasswordReset :: "Cognito \<Rightarrow> param \<Rightarrow> js_error + jsval" where
  "initiatePasswordReset this username =
     (case cognitoClient this (ForgotPasswordCommand (clientId (config this)) username) of
        Inl e \<Rightarrow> Inl e
      | Inr response \<Rightarrow> Inr JUndefined)"

section \<open>Request handlers (\<open>handlers/*.ts\<close>)\<close>

text \<open>
  A handler reads its event through \<open>JSON.parse(event.body)\<close>. The model starts from the
  result of that call: a syntax error, \<open>null\<close> (reading a property of it throws a
  \<open>TypeError\<close>), or a value whose properties the handler reads, each a scalar or absent
  (\<open>attributes\<close>: a record of strings or absent, as the interface declares it).
  The environment is \<open>process.env\<close>. Log lines are left out. Next to its response a handler
  returns what it did with the gateway client, in order: constructing it, invoking one of
  its operations, and the error that operation threw.
\<close>

record request_body =
  props :: "string \<Rightarrow> scalar option"
  attributes :: "(string \<times> string) list option"

datatype parse_result = SyntaxError | JsonNull | JsonValue request_body

record process_env =
  USER_POOL_ID :: "string option"
  CLIENT_ID :: "string option"
  REGION :: "string option"
  AWS_REGION :: "string option"

datatype gw_event = Constructed CognitoConfig | Invoked string | Threw js_error

type_synonym run = "APIGatewayResponse \<times> gw_event list"

definition region_of :: "process_env \<Rightarrow> string" where
  \<comment> \<open>\<open>process.env.REGION || process.env.AWS_REGION || 'us-east-1'\<close>\<close>
  "region_of env = or_else (REGION env) (or_else (AWS_REGION env) ''us-east-1'')"

definition config_of :: "process_env \<Rightarrow> CognitoConfig" where
  "config_of env =
     \<lparr>userPoolId = str (USER_POOL_ID env), clientId = str (CLIENT_ID env), region = region_of env\<rparr>"

definition null_TypeError :: "string \<Rightarrow> js_error" where
  "null_TypeError prop =
     \<lparr>name = Some ''TypeError'',
      message = ''Cannot read properties of null (reading '' @ [CHR 0x27] @ prop @ [CHR 0x27] @ '')''\<rparr>"

definition invalid_json :: APIGatewayResponse where
  "invalid_json = formatErrorResponse (new_Error ''Invalid request body: must be valid JSON'') 400"

definition config_error :: APIGatewayResponse where
  "config_error =
     formatErrorResponse (new_Error ''Server configuration error: missing Cognito configuration'') 500"

definition invoke :: "string \<Rightarrow> CognitoConfig \<Rightarrow> js_error + jsval \<Rightarrow>
    (js_error \<Rightarrow> APIGatewayResponse) \<Rightarrow> (jsval \<Rightarrow> APIGatewayResponse) \<Rightarrow> run" where
  \<comment> \<open>\<open>await cognito.op(...)\<close> inside \<open>try\<close>: a rejection goes to the \<open>catch\<close> block,
      a result to the statements behind the call\<close>
  "invoke op cfg outcome on_error on_result =
     (case outcome of
        Inl e \<Rightarrow> (on_error e, [Constructed cfg, Invoked op, Threw e])
      | Inr result \<Rightarrow> (on_result result, [Constructed cfg, Invoked op]))"

subsection \<open>\<open>signup.ts\<close>\<close>

definition signup_catch :: "js_error \<Rightarrow> APIGatewayResponse" where
  "signup_catch error =
     (if name error = Some ''UsernameExistsException''
      then formatErrorResponse (new_Error ''An account with this username already exists'') 409
      else if name error = Some ''InvalidPasswordException''
      then formatErrorResponse (new_Error ''Password does not meet requirements'') 400
      else if name error = Some ''InvalidParameterException''
      then formatErrorResponse (new_Error ''Invalid parameter provided'') 400
      else if name error = Some ''TooManyRequestsException''
      then formatErrorResponse (new_Error ''Too many requests. Please try again later'') 429
      else if name error = Some ''LimitExceededException''
      then formatErrorResponse
             (new_Error ''Account creation limit exceeded. Please try again later'') 429
      else formatErrorResponse (new_Error ''An unexpected error occurred during signup'') 500)"

definition signup_handler :: "aws \<Rightarrow> process_env \<Rightarrow> parse_result \<Rightarrow> run" where
  "signup_handler provider env parsed =
     (case parsed of
        SyntaxError \<Rightarrow> (invalid_json, [])
      | JsonNull \<Rightarrow> (signup_catch (null_TypeError ''username''), [])
      | JsonValue requestBody \<Rightarrow>
          if \<not> truthy_value (props requestBody ''username'')
             \<or> \<not> truthy_value (props requestBody ''password'')
             \<or> \<not> truthy_value (props requestBody ''email'')
          then (formatErrorResponse
                  (new_Error ''Missing required fields: username, password, and email are required'')
                  400, [])
          else if \<not> validateEmail_value (props requestBody ''email'')
          then (formatErrorResponse (new_Error ''Invalid email format'') 400, [])
          else
            let passwordValidation = validatePassword_value (props requestBody ''password'')
            in if \<not> valid passwordValidation
               then (formatErrorResponse
                       (new_Error (''Password validation failed: '' @
                          join '', '' (errors passwordValidation))) 400, [])
               else if \<not> truthy (USER_POOL_ID env) \<or> \<not> truthy (CLIENT_ID env)
               then (config_error, [])
               else
                 let cognito = new_Cognito provider (config_of env)
                 in invoke ''signUp'' (config_of env)
                      (signUp cognito (props requestBody ''username'')
                         (props requestBody ''password'') (props requestBody ''email'')
                         (attributes requestBody))
                      signup_catch (\<lambda>result. formatSuccessResponse result 200))"

subsection \<open>\<open>verification_code.ts\<close>\<close>

definition verification_catch :: "js_error \<Rightarrow> APIGatewayResponse" where
  "verification_catch error =
     (if name error = Some ''CodeMismatchException''
      then formatErrorResponse (new_Error ''Invalid verification code'') 400
      else if name error = Some ''ExpiredCodeException''
      then formatErrorResponse (new_Error ''Verification code has expired'') 400
      else if name error = Some ''UserNotFoundException''
      then formatErrorResponse (new_Error ''User not found'') 404
      else if name error = Some ''NotAuthorizedException''
      then formatErrorResponse (new_Error ''User is already confirmed'') 400
      else if name error = Some ''TooManyFailedAttemptsException''
      then formatErrorResponse (new_Error ''Too many failed attempts. Please try again later'') 429
      else if name error = Some ''TooManyRequestsException''
      then formatErrorResponse (new_Error ''Too many requests. Please try again later'') 429
      else if name error = Some ''LimitExceededException''
      then formatErrorResponse
             (new_Error ''Verification limit exceeded. Please try again later'') 429
      else formatErrorResponse (new_Error ''An unexpected error occurred during verification'') 500)"

definition verification_handler :: "aws \<Rightarrow> process_env \<Rightarrow> parse_result \<Rightarrow> run" where
  "verification_handler provider env parsed =
     (case parsed of
        SyntaxError \<Rightarrow> (invalid_json, [])
      | JsonNull \<Rightarrow> (verification_catch (null_TypeError ''username''), [])
      | JsonValue requestBody \<Rightarrow>
          if \<not> truthy_value (props requestBody ''username'')
             \<or> \<not> truthy_value (props requestBody ''code'')
          then (formatErrorResponse
                  (new_Error ''Missing required fields: username and code are required'') 400, [])
          else if typeof (props requestBody ''code'') \<noteq> ''string''
                  \<or> length (trim (string_of (props requestBody ''code''))) = 0
          then (formatErrorResponse (new_Error ''Invalid verification code format'') 400, [])
          else if \<not> truthy (USER_POOL_ID env) \<or> \<not> truthy (CLIENT_ID env)
          then (config_error, [])
          else
            let cognito = new_Cognito provider (config_of env)
            in invoke ''verifyCode'' (config_of env)
                 (verifyCode cognito (props requestBody ''username'')
                    (Some (Str (trim (string_of (props requestBody ''code''))))))
                 verification_catch
                 (\<lambda>result. formatSuccessResponse
                    (JObj [(''message'', JStr ''User verification successful'')]) 200))"

subsection \<open>\<open>login.ts\<close>\<close>

definition login_catch :: "js_error \<Rightarrow> APIGatewayResponse" where
  "login_catch error =
     (if message error \<noteq> [] \<and> startsWith (message error) ''MFA_REQUIRED:''
      then
        let session = (case split CHR '':'' (message error) of
                         _ # part # _ \<Rightarrow> JStr part
                       | _ \<Rightarrow> JUndefined)
        in formatSuccessResponse
             (JObj [(''challengeName'', JStr ''MFA_REQUIRED''),
                    (''session'', session),
                    (''message'', JStr ''MFA verification required. Please provide MFA code.'')])
             200
      else if name error = Some ''NotAuthorizedException''
      then formatErrorResponse (new_Error ''Incorrect username or password'') 401
      else if name error = Some ''UserNotConfirmedException''
      then formatErrorResponse
             (new_Error ''User account is not confirmed. Please verify your email'') 403
      else if name error = Some ''UserNotFoundException''
      then formatErrorResponse (new_Error ''Incorrect username or password'') 401
      else if name error = Some ''InvalidParameterException''
      then formatErrorResponse (new_Error ''Invalid parameter provided'') 400
      else if name error = Some ''TooManyRequestsException''
      then formatErrorResponse (new_Error ''Too many requests. Please try again later'') 429
      else if name error = Some ''PasswordResetRequiredException''
      then formatErrorResponse
             (new_Error ''Password reset required. Please reset your password'') 403
      else if name error = Some ''UserLambdaValidationException''
      then formatErrorResponse (new_Error ''User validation failed'') 403
      else formatErrorResponse (new_Error ''An unexpected error occurred during login'') 500)"

definition login_handler :: "aws \<Rightarrow> process_env \<Rightarrow> parse_result \<Rightarrow> run" where
  "login_handler provider env parsed =
     (case parsed of
        SyntaxError \<Rightarrow> (invalid_json, [])
      | JsonNull \<Rightarrow> (login_catch (null_TypeError ''username''), [])
      | JsonValue requestBody \<Rightarrow>
          if \<not> truthy_value (props requestBody ''username'')
             \<or> \<not> truthy_value (props requestBody ''password'')
          then (formatErrorResponse
                  (new_Error ''Missing required fields: username and password are required'')
                  400, [])
          else if \<not> truthy (USER_POOL_ID env) \<or> \<not> truthy (CLIENT_ID env)
          then (config_error, [])
          else
            let cognito = new_Cognito provider (config_of env)
            in invoke ''login'' (config_of env)
                 (login cognito (props requestBody ''username'')
                    (props requestBody ''password''))
                 login_catch (\<lambda>result. formatSuccessResponse result 200))"

subsection \<open>\<open>mfa.ts\<close>\<close>

definition mfa_catch :: "js_error \<Rightarrow> APIGatewayResponse" where
  "mfa_catch error =
     (if name error = Some ''CodeMismatchException''
      then formatErrorResponse (new_Error ''Invalid MFA code provided'') 401
      else if name error = Some ''ExpiredCodeException''
      then formatErrorResponse (new_Error ''MFA code has expired. Please request a new code'') 401
      else if name error = Some ''NotAuthorizedException''
      then formatErrorResponse (new_Error ''Invalid session or MFA code'') 401
      else if name error = Some ''InvalidParameterException''
      then formatErrorResponse (new_Error ''Invalid parameter provided'') 400
      else if name error = Some ''TooManyRequestsException''
      then formatErrorResponse (new_Error ''Too many requests. Please try again later'') 429
      else if name error = Some ''UserNotFoundException''
      then formatErrorResponse (new_Error ''User not found'') 404
      else if name error = Some ''UserNotConfirmedException''
      then formatErrorResponse
             (new_Error ''User account is not confirmed. Please verify your email'') 403
      else formatErrorResponse
             (new_Error ''An unexpected error occurred during MFA verification'') 500)"

definition mfa_handler :: "aws \<Rightarrow> process_env \<Rightarrow> parse_result \<Rightarrow> run" where
  "mfa_handler provider env parsed =
     (case parsed of
        SyntaxError \<Rightarrow> (invalid_json, [])
      | JsonNull \<Rightarrow> (mfa_catch (null_TypeError ''session''), [])
      | JsonValue requestBody \<Rightarrow>
          if \<not> truthy_value (props requestBody ''session'')
             \<or> \<not> truthy_value (props requestBody ''mfaCode'')
             \<or> \<not> truthy_value (props requestBody ''username'')
          then (formatErrorResponse
                  (new_Error ''Missing required fields: session, mfaCode, and username are required'')
                  400, [])
          else if \<not> truthy (USER_POOL_ID env) \<or> \<not> truthy (CLIENT_ID env)
          then (config_error, [])
          else
            let cognito = new_Cognito provider (config_of env)
            in invoke ''confirmMFA'' (config_of env)
                 (confirmMFA cognito (props requestBody ''session'')
                    (props requestBody ''mfaCode'') (props requestBody ''username''))
                 mfa_catch (\<lambda>result. formatSuccessResponse result 200))"

subsection \<open>\<open>set_new_password.ts\<close>\<close>

definition set_new_password_catch :: "js_error \<Rightarrow> APIGatewayResponse" where
  "set_new_password_catch error =
     (if name error = Some ''NotAuthorizedException''
      then formatErrorResponse (new_Error ''Invalid previous password or session'') 401
      else if name error = Some ''InvalidPasswordException''
      then formatErrorResponse (new_Error ''New password does not meet requirements'') 400
      else if name error = Some ''InvalidParameterException''
      then formatErrorResponse (new_Error ''Invalid parameter provided'') 400
      else if name error = Some ''LimitExceededException''
      then formatErrorResponse (new_Error ''Attempt limit exceeded. Please try again later'') 429
      else if name error = Some ''TooManyRequestsException''
      then formatErrorResponse (new_Error ''Too many requests. Please try again later'') 429
      else if name error = Some ''UserNotFoundException''
      then formatErrorResponse (new_Error ''User not found'') 404
      else if name error = Some ''UserNotConfirmedException''
      then formatErrorResponse
             (new_Error ''User account is not confirmed. Please verify your email'') 403
      else formatErrorResponse
             (new_Error ''An unexpected error occurred during password change'') 500)"

definition set_new_password_handler :: "aws \<Rightarrow> process_env \<Rightarrow> parse_result \<Rightarrow> run" where
  "set_new_password_handler provider env parsed =
     (case parsed of
        SyntaxError \<Rightarrow> (invalid_json, [])
      | JsonNull \<Rightarrow> (set_new_password_catch (null_TypeError ''username''), [])
      | JsonValue requestBody \<Rightarrow>
          if \<not> truthy_value (props requestBody ''username'')
             \<or> \<not> truthy_value (props requestBody ''previousPassword'')
             \<or> \<not> truthy_value (props requestBody ''proposedPassword'')
             \<or> \<not> truthy_value (props requestBody ''session'')
          then (formatErrorResponse
                  (new_Error ''Missing required fields: username, previousPassword, proposedPassword, and session are required'')
                  400, [])
          else
            let passwordValidation = validatePassword_value (props requestBody ''proposedPassword'')
            in if \<not> valid passwordValidation
               then (formatErrorResponse
                       (new_Error (''Password does not meet requirements: '' @
                          join '', '' (errors passwordValidation))) 400, [])
               else if \<not> truthy (USER_POOL_ID env) \<or> \<not> truthy (CLIENT_ID env)
               then (config_error, [])
               else
                 let cognito = new_Cognito provider (config_of env)
                 in invoke ''setNewPassword'' (config_of env)
                      (setNewPassword cognito (props requestBody ''username'')
                         (props requestBody ''previousPassword'')
                         (props requestBody ''proposedPassword'')
                         (props requestBody ''session''))
                      set_new_password_catch
                      (\<lambda>result. formatSuccessResponse
                         (JObj [(''message'', JStr ''Password changed successfully'')]) 200))"

subsection \<open>\<open>reset_password.ts\<close>\<close>

definition reset_password_catch :: "js_error \<Rightarrow> APIGatewayResponse" where
  "reset_password_catch error =
     (if name error = Some ''UserNotFoundException''
      then formatErrorResponse (new_Error ''User not found'') 404
      else if name error = Some ''CodeMismatchException''
      then formatErrorResponse (new_Error ''Invalid verification code'') 400
      else if name error = Some ''ExpiredCodeException''
      then formatErrorResponse
             (new_Error ''Verification code has expired. Please request a new code'') 400
      else if name error = Some ''InvalidPasswordException''
      then formatErrorResponse (new_Error ''New password does not meet requirements'') 400
      else if name error = Some ''InvalidParameterException''
      then formatErrorResponse (new_Error ''Invalid parameter provided'') 400
      else if name error = Some ''LimitExceededException''
      then formatErrorResponse (new_Error ''Attempt limit exceeded. Please try again later'') 429
      else if name error = Some ''TooManyRequestsException''
      then formatErrorResponse (new_Error ''Too many requests. Please try again later'') 429
      else if name error = Some ''TooManyFailedAttemptsException''
      then formatErrorResponse (new_Error ''Too many failed attempts. Please try again later'') 429
      else if name error = Some ''NotAuthorizedException''
      then formatErrorResponse (new_Error ''Password reset not authorized for this user'') 403
      else if name error = Some ''UserNotConfirmedException''
      then formatErrorResponse
             (new_Error ''User account is not confirmed. Please verify your email first'') 403
      else formatErrorResponse
             (new_Error ''An unexpected error occurred during password reset'') 500)"

definition reset_password_handler :: "aws \<Rightarrow> process_env \<Rightarrow> parse_result \<Rightarrow> run" where
  \<open>reset_password_handler provider env parsed =
     (case parsed of
        SyntaxError \<Rightarrow> (invalid_json, [])
      | JsonNull \<Rightarrow> (reset_password_catch (null_TypeError ''operation''), [])
      | JsonValue requestBody \<Rightarrow>
          let operation = props requestBody ''operation''
          in if \<not> truthy_value operation
                \<or> (operation \<noteq> Some (Str ''initiate'') \<and> operation \<noteq> Some (Str ''confirm''))
             then (formatErrorResponse
                     (new_Error ''Invalid operation: must be "initiate" or "confirm"'') 400, [])
             else
               let username = props requestBody ''username''
               in if \<not> truthy_value username
                  then (formatErrorResponse
                          (new_Error ''Missing required field: username is required'') 400, [])
                  else if \<not> truthy (USER_POOL_ID env) \<or> \<not> truthy (CLIENT_ID env)
                  then (config_error, [])
                  else
                    let cognito = new_Cognito provider (config_of env)
                    in if operation = Some (Str ''initiate'')
                       then invoke ''initiatePasswordReset'' (config_of env)
                              (initiatePasswordReset cognito username)
                              reset_password_catch
                              (\<lambda>result. formatSuccessResponse
                                 (JObj [(''message'', JStr ''Password reset code sent successfully'')])
                                 200)
                       else if operation = Some (Str ''confirm'')
                       then
                         let code = props requestBody ''code'';
                             newPassword = props requestBody ''newPassword''
                         in if \<not> truthy_value code \<or> \<not> truthy_value newPassword
                            then (formatErrorResponse
                                    (new_Error ''Missing required fields: code and newPassword are required for confirm operation'')
                                    400, [Constructed (config_of env)])
                            else
                              let passwordValidation = validatePassword_value newPassword
                              in if \<not> valid passwordValidation
                                 then (formatErrorResponse
                                         (new_Error (''Password does not meet requirements: '' @
                                            join '', '' (errors passwordValidation))) 400,
                                       [Constructed (config_of env)])
                                 else invoke ''resetPassword'' (config_of env)
                                        (resetPassword cognito username code
                                           newPassword)
                                        reset_password_catch
                                        (\<lambda>result. formatSuccessResponse
                                           (JObj [(''message'', JStr ''Password reset successfully'')])
                                           200)
                       else (formatErrorResponse (new_Error ''Invalid operation'') 400,
                             [Constructed (config_of env)]))\<close>

subsection \<open>The six handlers\<close>

datatype handler_id = Signup | Verification | Login | Mfa | SetNewPassword | ResetPassword

fun handler :: "handler_id \<Rightarrow> aws \<Rightarrow> process_env \<Rightarrow> parse_result \<Rightarrow> run" where
  "handler Signup = signup_handler"
| "handler Verification = verification_handler"
| "handler Login = login_handler"
| "handler Mfa = mfa_handler"
| "handler SetNewPassword = set_new_password_handler"
| "handler ResetPassword = reset_password_handler"

section \<open>Vocabulary of the properties\<close>

definition mentions :: "string \<Rightarrow> string \<Rightarrow> bool" where
  \<comment> \<open>the text, lower-case-normalised, contains the word\<close>
  "mentions word text = sublist word (toLowerCase text)"

definition leaks :: "string \<Rightarrow> bool" where
  "leaks text = (mentions ''password'' text \<or> mentions ''token'' text \<or> mentions ''session'' text)"

definition redacted :: "APIGatewayResponse \<Rightarrow> bool" where
  "redacted r = (case body r of None \<Rightarrow> False | Some text \<Rightarrow> \<not> leaks text)"

definition plain :: "char \<Rightarrow> bool" where
  \<comment> \<open>a code unit that a JSON string literal shows as it is\<close>
  "plain c = (32 \<le> (of_char c :: nat) \<and> (of_char c :: nat) \<noteq> 34 \<and> (of_char c :: nat) \<noteq> 92)"

definition is_challenge :: "js_error \<Rightarrow> bool" where
  \<comment> \<open>the test by which \<open>login.ts\<close> recognises the second-factor signal\<close>
  "is_challenge e = (message e \<noteq> [] \<and> startsWith (message e) ''MFA_REQUIRED:'')"

fun catch_block :: "handler_id \<Rightarrow> js_error \<Rightarrow> APIGatewayResponse" where
  "catch_block Signup = signup_catch"
| "catch_block Verification = verification_catch"
| "catch_block Login = login_catch"
| "catch_block Mfa = mfa_catch"
| "catch_block SetNewPassword = set_new_password_catch"
| "catch_block ResetPassword = reset_password_catch"

fun invocations :: "gw_event list \<Rightarrow> string list" where
  "invocations [] = []"
| "invocations (Invoked op # es) = op # invocations es"
| "invocations (e # es) = invocations es"


fun required :: "handler_id \<Rightarrow> request_body \<Rightarrow> string list" where
  \<comment> \<open>the request fields of each operation, as the table of request bodies lists them\<close>
  "required Signup rb = [''username'', ''password'', ''email'']"
| "required Verification rb = [''username'', ''code'']"
| "required Login rb = [''username'', ''password'']"
| "required Mfa rb = [''session'', ''mfaCode'', ''username'']"
| "required SetNewPassword rb =
     [''username'', ''previousPassword'', ''proposedPassword'', ''session'']"
| "required ResetPassword rb =
     [''operation'', ''username''] @
     (if props rb ''operation'' = Some (Str ''confirm'') then [''code'', ''newPassword''] else [])"






fun operations :: "handler_id \<Rightarrow> string list" where
  \<comment> \<open>the gateway operations that belong to each handler\<close>
  "operations Signup = [''signUp'']"
| "operations Verification = [''verifyCode'']"
| "operations Login = [''login'']"
| "operations Mfa = [''confirmMFA'']"
| "operations SetNewPassword = [''setNewPassword'']"
| "operations ResetPassword = [''initiatePasswordReset'', ''resetPassword'']"



definition follows_value :: "string \<Rightarrow> bool" where
  \<comment> \<open>what stands behind a value inside the text of \<open>JSON.stringify\<close>: nothing, a comma
      or a closing bracket\<close>
  "follows_value rest =
     (case rest of [] \<Rightarrow> True | c # _ \<Rightarrow> c = CHR '','' \<or> c = CHR '']'' \<or> c = CHR ''}'')"

subsection \<open>Sample inputs\<close>

definition sample_env :: process_env where
  "sample_env = \<lparr>USER_POOL_ID = Some ''pool-1'', CLIENT_ID = Some ''client-1'',
                  REGION = Some ''eu-west-1'', AWS_REGION = None\<rparr>"

definition login_request :: "string \<Rightarrow> string \<Rightarrow> parse_result" where
  "login_request u p =
     JsonValue \<lparr>props = [''username'' \<mapsto> Str u, ''password'' \<mapsto> Str p], attributes = None\<rparr>"

definition challenging :: "string \<Rightarrow> aws" where
  \<comment> \<open>a provider that answers every command with a second-factor challenge\<close>
  "challenging s = (\<lambda>region command. Inr
     \<lparr>UserSub = None, CodeDeliveryDetails = None, ChallengeName = Some ''SMS_MFA'',
      Session = Some s, AuthenticationResult = None\<rparr>)"

definition rejecting :: "js_error \<Rightarrow> aws" where
  \<comment> \<open>a provider that rejects every command with the given error\<close>
  "rejecting e = (\<lambda>region command. Inl e)"

definition reset_request :: "string \<Rightarrow> string \<Rightarrow> parse_result" where
  "reset_request op u =
     JsonValue \<lparr>props = [''operation'' \<mapsto> Str op, ''username'' \<mapsto> Str u], attributes = None\<rparr>"



section \<open>Regular expressions: what \<open>matches\<close> computes\<close>

lemma conc_Nil_iff: "[] \<in> conc A B \<longleftrightarrow> [] \<in> A \<and> [] \<in> B"
  by (auto simp: conc_def)

lemma nullable_lang: "nullable r \<longleftrightarrow> [] \<in> lang r"
  by (induction r) (auto simp: conc_Nil_iff intro: star.intros)

lemma Cons_in_conc: "c # w \<in> conc A B \<longleftrightarrow> (\<exists>u v. w = u @ v \<and> c # u \<in> A \<and> v \<in> B) \<or> ([] \<in> A \<and> c # w \<in> B)"
  by (auto simp: conc_def Cons_eq_append_conv) 

lemma Cons_in_star: "c # w \<in> star A \<longleftrightarrow> (\<exists>u v. w = u @ v \<and> c # u \<in> A \<and> v \<in> star A)"
proof
  assume "c # w \<in> star A"
  then show "\<exists>u v. w = u @ v \<and> c # u \<in> A \<and> v \<in> star A"
  proof (induction "c # w" rule: star.induct)
    case (star_step a x)
    then show ?case by (cases a) auto
  qed
next
  assume "\<exists>u v. w = u @ v \<and> c # u \<in> A \<and> v \<in> star A"
  then obtain u v where "w = u @ v" "c # u \<in> A" "v \<in> star A" by blast
  then show "c # w \<in> star A" using star_step[of "c # u" A v] by simp
qed

lemma lang_deriv: "w \<in> lang (deriv c r) \<longleftrightarrow> c # w \<in> lang r"
proof (induction r arbitrary: w)
  case (Times r s)
  have a: "\<And>A B. (w \<in> conc A B) = (\<exists>u v. w = u @ v \<and> u \<in> A \<and> v \<in> B)"
    by (auto simp: conc_def)
  show ?case using Times by (simp add: a Cons_in_conc[of c w] nullable_lang)
next
  case (Star r)
  have a: "\<And>A B. (w \<in> conc A B) = (\<exists>u v. w = u @ v \<and> u \<in> A \<and> v \<in> B)"
    by (auto simp: conc_def)
  show ?case using Star by (simp add: a Cons_in_star[of c w])
qed auto

lemma matches_lang: "matches r w \<longleftrightarrow> w \<in> lang r"
  by (induction w arbitrary: r) (auto simp: nullable_lang lang_deriv)


lemma star_atoms: "star {[c] | c. P c} = {w. \<forall>x\<in>set w. P x}"
proof (rule set_eqI, rule iffI)
  fix w assume "w \<in> star {[c] | c. P c}"
  then show "w \<in> {w. \<forall>x\<in>set w. P x}"
    by (induction rule: star.induct) auto
next
  fix w assume "w \<in> {w. \<forall>x\<in>set w. P x}"
  then have "\<forall>x\<in>set w. P x" by simp
  then show "w \<in> star {[c] | c. P c}"
  proof (induction w)
    case Nil show ?case by (rule star_Nil)
  next
    case (Cons x xs)
    then have "[x] \<in> {[c] | c. P c}" "xs \<in> star {[c] | c. P c}" by auto
    from star_step[OF this] show ?case by simp
  qed
qed

lemma lang_plus_atom: "lang (plus (Atom P)) = {w. w \<noteq> [] \<and> (\<forall>x\<in>set w. P x)}"
proof (rule set_eqI)
  fix w show "w \<in> lang (plus (Atom P)) \<longleftrightarrow> w \<in> {w. w \<noteq> [] \<and> (\<forall>x\<in>set w. P x)}"
  proof (cases w)
    case Nil then show ?thesis by (simp add: plus_def conc_def)
  next
    case (Cons a list)
    have "(\<exists>aa b. a # list = aa @ b \<and> (\<exists>c. aa = [c] \<and> P c) \<and> (\<forall>x\<in>set b. P x))
        \<longleftrightarrow> P a \<and> (\<forall>x\<in>set list. P x)"
      by (auto intro: exI[of _ "[a]"])
    then show ?thesis using Cons by (simp add: plus_def conc_def star_atoms)
  qed
qed

lemma in_conc_iff: "(w \<in> conc A B) = (\<exists>u v. w = u @ v \<and> u \<in> A \<and> v \<in> B)"
  by (auto simp: conc_def)

lemma validateEmail_iff:
  "validateEmail s \<longleftrightarrow>
     (\<exists>a b c. s = a @ ''@'' @ b @ ''.'' @ c \<and> a \<noteq> [] \<and> b \<noteq> [] \<and> c \<noteq> [] \<and>
        (\<forall>x\<in>set a. cls_segment x) \<and> (\<forall>x\<in>set b. cls_segment x) \<and> (\<forall>x\<in>set c. cls_segment x))"
proof -
  let ?S = "{w. w \<noteq> [] \<and> (\<forall>x\<in>set w. cls_segment x)}"
  have L: "lang emailRegex = conc ?S (conc {''@''} (conc ?S (conc {''.''} ?S)))"
    by (simp add: emailRegex_def lang_plus_atom)
  have "s \<in> lang emailRegex \<longleftrightarrow>
     (\<exists>a b c. s = a @ ''@'' @ b @ ''.'' @ c \<and> a \<in> ?S \<and> b \<in> ?S \<and> c \<in> ?S)"
    unfolding L in_conc_iff by blast
  moreover have "s = [] \<Longrightarrow> s \<notin> lang emailRegex"
    unfolding L in_conc_iff by simp
  ultimately show ?thesis
    unfolding validateEmail_def matches_lang by auto
qed

section \<open>Redaction\<close>

lemma of_char_canonicalize:
  "(of_char (canonicalize c) :: nat) =
     (if (97 \<le> (of_char c :: nat) \<and> (of_char c :: nat) \<le> 122)
         \<or> (224 \<le> (of_char c :: nat) \<and> (of_char c :: nat) \<le> 254 \<and> (of_char c :: nat) \<noteq> 247)
      then of_char c - 32 else of_char c)"
proof -
  have "(of_char c :: nat) < 256" by simp
  then have "(of_char c :: nat) - 32 < 256" by arith
  then have "((of_char c :: nat) - 32) mod 256 = of_char c - 32" by (rule mod_less)
  then show ?thesis by (simp add: canonicalize_def Let_def)
qed

lemma of_char_toLowerCase_unit:
  "(of_char (toLowerCase_unit c) :: nat) =
     (if (65 \<le> (of_char c :: nat) \<and> (of_char c :: nat) \<le> 90)
         \<or> (192 \<le> (of_char c :: nat) \<and> (of_char c :: nat) \<le> 222 \<and> (of_char c :: nat) \<noteq> 215)
      then of_char c + 32 else of_char c)"
proof -
  have "(of_char c :: nat) \<le> 222 \<Longrightarrow> ((of_char c :: nat) + 32) mod 256 = of_char c + 32" by simp
  then show ?thesis by (auto simp add: toLowerCase_unit_def Let_def)
qed

lemma fold_nat:
  fixes n m :: nat
  assumes "97 \<le> m" "m \<le> 122" "n < 256"
  shows "(m - 32 = (if (97 \<le> n \<and> n \<le> 122) \<or> (224 \<le> n \<and> n \<le> 254 \<and> n \<noteq> 247) then n - 32 else n))
       = ((if (65 \<le> n \<and> n \<le> 90) \<or> (192 \<le> n \<and> n \<le> 222 \<and> n \<noteq> 215) then n + 32 else n) = m)"
  using assms by auto

lemma fold_lower:
  assumes "cls_lower p"
  shows "(canonicalize p = canonicalize c) = (toLowerCase_unit c = p)"
proof -
  have m: "97 \<le> (of_char p :: nat)" "(of_char p :: nat) \<le> 122"
    using assms by (simp_all add: cls_lower_def in_range_def)
  have n: "(of_char c :: nat) < 256" by simp
  have cp: "(of_char (canonicalize p) :: nat) = of_char p - 32"
    using m by (simp add: of_char_canonicalize)
  have "(canonicalize p = canonicalize c) = ((of_char (canonicalize p) :: nat) = of_char (canonicalize c))"
    by simp
  also have "\<dots> = ((of_char (toLowerCase_unit c) :: nat) = of_char p)"
    unfolding cp of_char_canonicalize[of c] of_char_toLowerCase_unit[of c]
    by (rule fold_nat[OF m n])
  also have "\<dots> = (toLowerCase_unit c = p)" by simp
  finally show ?thesis .
qed

lemma matches_at_prefix:
  "list_all cls_lower pat \<Longrightarrow> matches_at pat s = prefix pat (toLowerCase s)"
proof (induction pat s rule: matches_at.induct)
  case (3 p ps c cs)
  then show ?case using fold_lower[of p c] by (auto simp: toLowerCase_def)
qed (simp_all add: toLowerCase_def)

lemma toLowerCase_append [simp]: "toLowerCase (a @ b) = toLowerCase a @ toLowerCase b"
  by (simp add: toLowerCase_def)

lemma toLowerCase_Cons [simp]: "toLowerCase (c # cs) = toLowerCase_unit c # toLowerCase cs"
  by (simp add: toLowerCase_def)

lemma toLowerCase_Nil [simp]: "toLowerCase [] = []"
  by (simp add: toLowerCase_def)

lemma toLowerCase_drop: "toLowerCase (drop n s) = drop n (toLowerCase s)"
  by (simp add: toLowerCase_def drop_map)

lemma replace_gi_prefix:
  assumes "rep \<noteq> []" "toLowerCase_unit (hd rep) \<notin> set q"
    and "prefix q (toLowerCase (replace_gi pat rep s))"
  shows "prefix q (toLowerCase s)"
  using assms
proof (induction pat rep s arbitrary: q rule: replace_gi.induct)
  case (1 pat rep)
  then show ?case by simp
next
  case (2 pat rep c cs)
  show ?case
  proof (cases q)
    case Nil then show ?thesis by simp
  next
    case (Cons y q')
    show ?thesis
    proof (cases "pat \<noteq> [] \<and> matches_at pat (c # cs)")
      case True
      from "2.prems"(1) obtain r rs where rep: "rep = r # rs" by (cases rep) auto
      from True "2.prems"(3) have "y = toLowerCase_unit r" by (simp add: rep Cons)
      with "2.prems"(2) show ?thesis by (simp add: rep Cons)
    next
      case False
      with "2.prems"(3) have y: "y = toLowerCase_unit c"
        and p: "prefix q' (toLowerCase (replace_gi pat rep cs))"
        by (auto simp: Cons)
      from "2.prems"(2) have "toLowerCase_unit (hd rep) \<notin> set q'" by (simp add: Cons)
      from "2.IH"(2)[OF False "2.prems"(1) this p] show ?thesis by (simp add: Cons y)
    qed
  qed
qed

lemma sublist_across:
  assumes "x \<notin> set q" "sublist q (a @ x # b)"
  shows "sublist q a \<or> sublist q b"
proof -
  from assms(2) consider "sublist q a" | "sublist q (x # b)"
    | xs1 xs2 where "q = xs1 @ xs2" "suffix xs1 a" "prefix xs2 (x # b)"
    by (auto simp: sublist_append)
  then show ?thesis
  proof cases
    case 1 then show ?thesis by simp
  next
    case 2
    then have "prefix q (x # b) \<or> sublist q b" by (simp add: sublist_Cons_right)
    then show ?thesis using assms(1) by (cases q) auto
  next
    case 3
    show ?thesis
    proof (cases xs2)
      case Nil with 3 show ?thesis by auto
    next
      case (Cons y ys)
      with 3 have "y = x" by simp
      with 3 Cons assms(1) show ?thesis by simp
    qed
  qed
qed

lemma replace_gi_sublist:
  assumes "list_all cls_lower pat" "rep \<noteq> []" "q \<noteq> []"
    and "toLowerCase_unit (hd rep) \<notin> set q" "toLowerCase_unit (last rep) \<notin> set q"
    and "\<not> sublist q (toLowerCase rep)"
    and "sublist q (toLowerCase (replace_gi pat rep s))"
  shows "sublist q (toLowerCase s) \<and> q \<noteq> pat"
  using assms
proof (induction pat rep s rule: replace_gi.induct)
  case (1 pat rep)
  then show ?case by simp
next
  case (2 pat rep c cs)
  show ?case
  proof (cases "pat \<noteq> [] \<and> matches_at pat (c # cs)")
    case True
    obtain front l where rep: "rep = front @ [l]" and l: "l = last rep"
      using "2.prems"(2) by (metis append_butlast_last_id)
    have lrep: "toLowerCase rep = toLowerCase front @ [toLowerCase_unit l]"
      by (subst rep) simp
    have out: "toLowerCase (replace_gi pat rep (c # cs)) =
        toLowerCase front @ toLowerCase_unit (last rep) #
          toLowerCase (replace_gi pat rep (drop (length pat - 1) cs))"
      using True by (simp add: lrep l)
    from sublist_across[OF "2.prems"(5) "2.prems"(7)[unfolded out]]
    have "sublist q (toLowerCase front) \<or>
          sublist q (toLowerCase (replace_gi pat rep (drop (length pat - 1) cs)))" .
    moreover have "\<not> sublist q (toLowerCase front)"
    proof
      assume "sublist q (toLowerCase front)"
      then have "sublist q (toLowerCase front @ [toLowerCase_unit l])"
        by (simp add: sublist_append)
      then show False using "2.prems"(6) lrep by simp
    qed
    ultimately have "sublist q (toLowerCase (replace_gi pat rep (drop (length pat - 1) cs)))"
      by blast
    from "2.IH"(1)[OF True "2.prems"(1,2,3,4,5,6) this]
    have "sublist q (toLowerCase (drop (length pat - 1) cs))" "q \<noteq> pat" by auto
    moreover have "sublist (toLowerCase (drop (length pat - 1) cs)) (toLowerCase (c # cs))"
      by (metis toLowerCase_drop sublist_drop sublist_Cons_right sublist_order.order_trans toLowerCase_Cons)
    ultimately show ?thesis by (meson sublist_order.order_trans)
  next
    case False
    then have out: "replace_gi pat rep (c # cs) = c # replace_gi pat rep cs" by auto
    from "2.prems"(7)[unfolded out] have
      "prefix q (toLowerCase_unit c # toLowerCase (replace_gi pat rep cs))
       \<or> sublist q (toLowerCase (replace_gi pat rep cs))"
      by (simp add: sublist_Cons_right)
    then show ?thesis
    proof
      assume "sublist q (toLowerCase (replace_gi pat rep cs))"
      from "2.IH"(2)[OF False "2.prems"(1,2,3,4,5,6) this]
      show ?thesis by (auto simp: sublist_Cons_right)
    next
      assume pre: "prefix q (toLowerCase_unit c # toLowerCase (replace_gi pat rep cs))"
      obtain y q' where q: "q = y # q'" using "2.prems"(3) by (cases q) auto
      from pre have y: "y = toLowerCase_unit c"
        and p: "prefix q' (toLowerCase (replace_gi pat rep cs))" by (auto simp: q)
      from "2.prems"(4) have "toLowerCase_unit (hd rep) \<notin> set q'" by (simp add: q)
      from replace_gi_prefix[OF "2.prems"(2) this p]
      have pq: "prefix q (toLowerCase (c # cs))" by (simp add: q y)
      then have "sublist q (toLowerCase (c # cs))" by (rule prefix_imp_sublist)
      moreover have "q \<noteq> pat"
      proof
        assume "q = pat"
        with pq "2.prems"(1,3) have "pat \<noteq> [] \<and> matches_at pat (c # cs)"
          by (simp add: matches_at_prefix)
        with False show False by simp
      qed
      ultimately show ?thesis by simp
    qed
  qed
qed

lemma redact_step:
  assumes "q \<in> {''password'', ''token'', ''session''}"
    and "pat \<in> {''password'', ''token'', ''session''}"
    and "sublist q (toLowerCase (replace_gi pat ''[REDACTED]'' s))"
  shows "sublist q (toLowerCase s) \<and> q \<noteq> pat"
proof (rule replace_gi_sublist[OF _ _ _ _ _ _ assms(3)])
  show "list_all cls_lower pat" using assms(2) by (auto simp: cls_lower_def in_range_def)
  show "''[REDACTED]'' \<noteq> []" by simp
  show "q \<noteq> []" using assms(1) by auto
  have h: "toLowerCase_unit (hd ''[REDACTED]'') = CHR ''[''" by code_simp
  have l: "toLowerCase_unit (last ''[REDACTED]'') = CHR '']''" by code_simp
  have r: "toLowerCase ''[REDACTED]'' = ''[redacted]''" by code_simp
  show "toLowerCase_unit (hd ''[REDACTED]'') \<notin> set q"
    unfolding h using assms(1) by auto
  show "toLowerCase_unit (last ''[REDACTED]'') \<notin> set q"
    unfolding l using assms(1) by auto
  show "\<not> sublist q (toLowerCase ''[REDACTED]'')"
    unfolding r using assms(1) by (auto simp: sublist_code)
qed

lemma sanitize_clean: "\<not> leaks (sanitize m)"
proof
  assume "leaks (sanitize m)"
  then obtain q where q: "q \<in> {''password'', ''token'', ''session''}"
    and s: "sublist q (toLowerCase (sanitize m))"
    by (auto simp: leaks_def mentions_def)
  from redact_step[OF q _ s[unfolded sanitize_def]]
  have 1: "sublist q (toLowerCase (replace_gi ''token'' ''[REDACTED]'' (replace_gi ''password'' ''[REDACTED]'' m)))"
    and n1: "q \<noteq> ''session''" by simp_all
  from redact_step[OF q _ 1]
  have 2: "sublist q (toLowerCase (replace_gi ''password'' ''[REDACTED]'' m))"
    and n2: "q \<noteq> ''token''" by simp_all
  from redact_step[OF q _ 2] have n3: "q \<noteq> ''password''" by simp
  from q n1 n2 n3 show False by simp
qed

lemma quote_plain: "list_all plain s \<Longrightarrow> quote s = CHR 0x22 # s @ [CHR 0x22]"
proof -
  assume a: "list_all plain s"
  have "concat (map quote_unit s) = s" using a
  proof (induction s)
    case (Cons c cs)
    then have "quote_unit c = [c]"
      by (simp add: plain_def quote_unit_def Let_def)
    with Cons show ?case by simp
  qed simp
  then show ?thesis by (simp add: quote_def)
qed

lemma replace_gi_plain:
  "list_all plain rep \<Longrightarrow> list_all plain s \<Longrightarrow> list_all plain (replace_gi pat rep s)"
proof (induction pat rep s rule: replace_gi.induct)
  case (2 pat rep c cs)
  have "list_all plain (drop (length pat - 1) cs)"
    using "2.prems"(2) set_drop_subset[of "length pat - 1" cs] by (auto simp: list_all_iff)
  with 2 show ?case by auto
qed simp

lemma sanitize_plain: "list_all plain m \<Longrightarrow> list_all plain (sanitize m)"
  unfolding sanitize_def by (intro replace_gi_plain) (simp_all add: plain_def)

lemma error_body:
  assumes "list_all plain m"
  shows "body (formatErrorResponse (new_Error m) st) =
    Some (''{'' @ CHR 0x22 # ''error'' @ CHR 0x22 # '':{'' @ CHR 0x22 # ''code'' @ CHR 0x22 # '':''
       @ CHR 0x22 # ''Error'' @ CHR 0x22 # '','' @ CHR 0x22 # ''message'' @ CHR 0x22 # '':''
       @ CHR 0x22 # sanitize m @ CHR 0x22 # ''}}'')"
proof -
  have q: "quote (sanitize m) = CHR 0x22 # sanitize m @ [CHR 0x22]"
    by (rule quote_plain[OF sanitize_plain[OF assms]])
  have k: "quote ''error'' = CHR 0x22 # ''error'' @ [CHR 0x22]"
    "quote ''code'' = CHR 0x22 # ''code'' @ [CHR 0x22]"
    "quote ''Error'' = CHR 0x22 # ''Error'' @ [CHR 0x22]"
    "quote ''message'' = CHR 0x22 # ''message'' @ [CHR 0x22]"
    by (rule quote_plain, simp add: plain_def)+
  show ?thesis
    by (simp add: formatErrorResponse_def new_Error_def JSON_stringify_def q k del: append.simps)
qed

lemma leaks_across:
  assumes "toLowerCase_unit x \<notin> set ''password''" "toLowerCase_unit x \<notin> set ''token''"
    "toLowerCase_unit x \<notin> set ''session''"
    and "\<not> leaks a" "\<not> leaks b"
  shows "\<not> leaks (a @ x # b)"
proof -
  have "\<not> sublist q (toLowerCase (a @ x # b))"
    if "toLowerCase_unit x \<notin> set q" "\<not> sublist q (toLowerCase a)" "\<not> sublist q (toLowerCase b)" for q
    using that sublist_across[of "toLowerCase_unit x" q "toLowerCase a" "toLowerCase b"] by auto
  then show ?thesis using assms unfolding leaks_def mentions_def by blast
qed

lemma error_redacted:
  assumes "list_all plain m"
  shows "redacted (formatErrorResponse (new_Error m) st)"
proof -
  let ?A = "''{'' @ CHR 0x22 # ''error'' @ CHR 0x22 # '':{'' @ CHR 0x22 # ''code'' @ CHR 0x22 # '':''
       @ CHR 0x22 # ''Error'' @ CHR 0x22 # '','' @ CHR 0x22 # ''message'' @ CHR 0x22 # '':''"
  have q: "toLowerCase_unit CHR 0x22 = CHR 0x22" by code_simp
  have A: "\<not> leaks ?A" by code_simp
  have B: "\<not> leaks ''}}''" by code_simp
  have "\<not> leaks (?A @ CHR 0x22 # (sanitize m @ CHR 0x22 # ''}}''))"
    by (intro leaks_across A B sanitize_clean) (simp_all add: q)
  then show ?thesis
    unfolding redacted_def error_body[OF assms] by simp
qed

lemma signup_catch_redacted: "redacted (signup_catch e)"
  unfolding signup_catch_def by (auto intro!: error_redacted simp: plain_def)

lemma verification_catch_redacted: "redacted (verification_catch e)"
  unfolding verification_catch_def by (auto intro!: error_redacted simp: plain_def)

lemma login_catch_redacted:
  "\<not> (message e \<noteq> [] \<and> startsWith (message e) ''MFA_REQUIRED:'') \<Longrightarrow> redacted (login_catch e)"
  unfolding login_catch_def by (auto intro!: error_redacted simp: plain_def)

lemma mfa_catch_redacted: "redacted (mfa_catch e)"
  unfolding mfa_catch_def by (auto intro!: error_redacted simp: plain_def)

lemma set_new_password_catch_redacted: "redacted (set_new_password_catch e)"
  unfolding set_new_password_catch_def by (auto intro!: error_redacted simp: plain_def)

lemma reset_password_catch_redacted: "redacted (reset_password_catch e)"
  unfolding reset_password_catch_def by (auto intro!: error_redacted simp: plain_def)

section \<open>Handlers and their \<open>catch\<close> blocks\<close>

lemma invoke_threw:
  "Threw e \<in> set (snd (invoke op cfg outcome on_error on_result)) \<Longrightarrow>
     fst (invoke op cfg outcome on_error on_result) = on_error e"
  by (auto simp: invoke_def split: sum.splits)

lemma login_threw:
  "Threw e \<in> set (snd (login_handler provider env parsed)) \<Longrightarrow>
     fst (login_handler provider env parsed) = login_catch e"
  unfolding login_handler_def
  by (auto simp: Let_def dest: invoke_threw split: parse_result.splits if_splits)

lemma signup_threw:
  "Threw e \<in> set (snd (signup_handler provider env parsed)) \<Longrightarrow>
     fst (signup_handler provider env parsed) = signup_catch e"
  unfolding signup_handler_def
  by (auto simp: Let_def dest: invoke_threw split: parse_result.splits if_splits)

lemma verification_threw:
  "Threw e \<in> set (snd (verification_handler provider env parsed)) \<Longrightarrow>
     fst (verification_handler provider env parsed) = verification_catch e"
  unfolding verification_handler_def
  by (auto simp: Let_def dest: invoke_threw split: parse_result.splits if_splits)

lemma mfa_threw:
  "Threw e \<in> set (snd (mfa_handler provider env parsed)) \<Longrightarrow>
     fst (mfa_handler provider env parsed) = mfa_catch e"
  unfolding mfa_handler_def
  by (auto simp: Let_def dest: invoke_threw split: parse_result.splits if_splits)

lemma set_new_password_threw:
  "Threw e \<in> set (snd (set_new_password_handler provider env parsed)) \<Longrightarrow>
     fst (set_new_password_handler provider env parsed) = set_new_password_catch e"
  unfolding set_new_password_handler_def
  by (auto simp: Let_def dest: invoke_threw split: parse_result.splits if_splits)

lemma reset_password_threw:
  "Threw e \<in> set (snd (reset_password_handler provider env parsed)) \<Longrightarrow>
     fst (reset_password_handler provider env parsed) = reset_password_catch e"
  unfolding reset_password_handler_def
  by (auto simp: Let_def dest: invoke_threw split: parse_result.splits if_splits)

lemma handler_threw:
  "Threw e \<in> set (snd (handler h provider env parsed)) \<Longrightarrow>
     fst (handler h provider env parsed) = catch_block h e"
  by (cases h)
     (simp_all add: signup_threw verification_threw login_threw mfa_threw
        set_new_password_threw reset_password_threw)

lemma login_challenging:
  "handler Login (challenging s) sample_env (login_request ''alice'' ''pw'') =
     (login_catch (new_Error (''MFA_REQUIRED:'' @ s)),
      [Constructed (config_of sample_env), Invoked ''login'',
       Threw (new_Error (''MFA_REQUIRED:'' @ s))])"
  by (simp add: login_handler_def login_request_def sample_env_def truthy_def invoke_def
      login_def new_Cognito_def challenging_def str_def)

lemma challenge_body_sess123:
  "body (login_catch (new_Error ''MFA_REQUIRED:sess123'')) =
     Some (''{'' @ CHR 0x22 # ''challengeName'' @ CHR 0x22 # '':'' @ CHR 0x22 # ''MFA_REQUIRED''
       @ CHR 0x22 # '','' @ CHR 0x22 # ''session'' @ CHR 0x22 # '':'' @ CHR 0x22 # ''sess123''
       @ CHR 0x22 # '','' @ CHR 0x22 # ''message'' @ CHR 0x22 # '':'' @ CHR 0x22 #
       ''MFA verification required. Please provide MFA code.'' @ CHR 0x22 # ''}'')"
  by code_simp

lemma login_rejecting:
  "handler Login (rejecting e) sample_env (login_request ''alice'' ''pw'') =
     (login_catch e, [Constructed (config_of sample_env), Invoked ''login'', Threw e])"
  by (simp add: login_handler_def login_request_def sample_env_def truthy_def invoke_def
      login_def new_Cognito_def rejecting_def str_def)

lemma sanitize_incorrect:
  "sanitize ''Incorrect username or password'' = ''Incorrect username or [REDACTED]''"
  by code_simp

lemma login_catch_credentials:
  "\<not> is_challenge e \<Longrightarrow>
   name e = Some ''UserNotFoundException'' \<or> name e = Some ''NotAuthorizedException'' \<Longrightarrow>
   login_catch e = formatErrorResponse (new_Error ''Incorrect username or password'') 401"
  by (auto simp: login_catch_def is_challenge_def)

lemma split_from_takeWhile:
  "split_from sep piece s =
     (piece @ takeWhile (\<lambda>c. c \<noteq> sep) s) #
       (case dropWhile (\<lambda>c. c \<noteq> sep) s of [] \<Rightarrow> [] | _ # rest \<Rightarrow> split_from sep [] rest)"
  by (induction s arbitrary: piece) auto

lemma split_challenge:
  "split CHR '':'' (''MFA_REQUIRED:'' @ s) =
     ''MFA_REQUIRED'' # takeWhile (\<lambda>c. c \<noteq> CHR '':'') s #
       (case dropWhile (\<lambda>c. c \<noteq> CHR '':'') s of [] \<Rightarrow> []
        | _ # rest \<Rightarrow> split_from CHR '':'' [] rest)"
proof -
  have "split CHR '':'' (''MFA_REQUIRED:'' @ s) = ''MFA_REQUIRED'' # split_from CHR '':'' [] s"
    by (simp add: split_def)
  also have "split_from CHR '':'' [] s = takeWhile (\<lambda>c. c \<noteq> CHR '':'') s #
       (case dropWhile (\<lambda>c. c \<noteq> CHR '':'') s of [] \<Rightarrow> []
        | _ # rest \<Rightarrow> split_from CHR '':'' [] rest)"
    using split_from_takeWhile[of "CHR '':''" "[]" s] by simp
  finally show ?thesis .
qed

lemma login_catch_challenge:
  "login_catch (new_Error (''MFA_REQUIRED:'' @ s)) =
     formatSuccessResponse
       (JObj [(''challengeName'', JStr ''MFA_REQUIRED''),
              (''session'', JStr (takeWhile (\<lambda>c. c \<noteq> CHR '':'') s)),
              (''message'', JStr ''MFA verification required. Please provide MFA code.'')])
       200"
proof -
  define m where "m = ''MFA_REQUIRED:'' @ s"
  have 1: "startsWith m ''MFA_REQUIRED:''" by (simp add: m_def startsWith_def)
  have 2: "m \<noteq> []" by (simp add: m_def)
  have 3: "split CHR '':'' m =
     ''MFA_REQUIRED'' # takeWhile (\<lambda>c. c \<noteq> CHR '':'') s #
       (case dropWhile (\<lambda>c. c \<noteq> CHR '':'') s of [] \<Rightarrow> []
        | _ # rest \<Rightarrow> split_from CHR '':'' [] rest)"
    unfolding m_def by (rule split_challenge)
  show ?thesis
    unfolding m_def[symmetric] login_catch_def by (simp add: new_Error_def 1 2 3)
qed

lemma quote_session: "quote ''AYABeC1-y8qooiuysEv0'' = CHR 0x22 # ''AYABeC1-y8qooiuysEv0'' @ [CHR 0x22]"
  by (rule quote_plain) (simp add: plain_def)

lemma quote_keys:
  "quote ''error'' = CHR 0x22 # ''error'' @ [CHR 0x22]"
  "quote ''code'' = CHR 0x22 # ''code'' @ [CHR 0x22]"
  "quote ''message'' = CHR 0x22 # ''message'' @ [CHR 0x22]"
  "quote ''InternalError'' = CHR 0x22 # ''InternalError'' @ [CHR 0x22]"
  by (rule quote_plain, simp add: plain_def)+

lemma error_body_named:
  assumes "name e = Some n" "n \<noteq> []"
  shows \<open>body (formatErrorResponse e st) =
    Some (''{"error":{"code":'' @ quote n @ '',"message":'' @ quote (sanitize (message e)) @ ''}}'')\<close>
  using assms by (simp add: formatErrorResponse_def JSON_stringify_def quote_keys)

lemma error_body_unnamed:
  assumes "name e = None \<or> name e = Some []"
  shows \<open>body (formatErrorResponse e st) =
    Some (''{"error":{"code":"InternalError","message":'' @ quote (sanitize (message e)) @ ''}}'')\<close>
  using assms by (auto simp add: formatErrorResponse_def JSON_stringify_def quote_keys)

lemma mentions_inside: "mentions w n \<Longrightarrow> mentions w (a @ n @ b)"
  unfolding mentions_def
  by (metis sublist_appendI sublist_order.order_trans toLowerCase_append)

section \<open>Invocations and checks before the gateway\<close>

lemma invocations_invoke [simp]:
  "invocations (snd (invoke op cfg outcome on_error on_result)) = [op]"
  by (simp add: invoke_def split: sum.splits)

lemma signup_invocations:
  "invocations (snd (signup_handler provider env parsed)) \<in> {[], [''signUp'']}"
  unfolding signup_handler_def
  by (simp add: Let_def split: parse_result.splits)

lemma verification_invocations:
  "invocations (snd (verification_handler provider env parsed)) \<in> {[], [''verifyCode'']}"
  unfolding verification_handler_def
  by (simp add: Let_def split: parse_result.splits)

lemma login_invocations:
  "invocations (snd (login_handler provider env parsed)) \<in> {[], [''login'']}"
  unfolding login_handler_def
  by (simp add: Let_def split: parse_result.splits)

lemma mfa_invocations:
  "invocations (snd (mfa_handler provider env parsed)) \<in> {[], [''confirmMFA'']}"
  unfolding mfa_handler_def
  by (simp add: Let_def split: parse_result.splits)

lemma set_new_password_invocations:
  "invocations (snd (set_new_password_handler provider env parsed)) \<in> {[], [''setNewPassword'']}"
  unfolding set_new_password_handler_def
  by (simp add: Let_def split: parse_result.splits)

lemma reset_password_invocations:
  "invocations (snd (reset_password_handler provider env parsed))
     \<in> {[], [''initiatePasswordReset''], [''resetPassword'']}"
  unfolding reset_password_handler_def
  by (simp add: Let_def split: parse_result.splits)

lemma reset_initiate_rejecting:
  "handler ResetPassword (rejecting e) sample_env (reset_request ''initiate'' ''alice'') =
     (reset_password_catch e,
      [Constructed (config_of sample_env), Invoked ''initiatePasswordReset'', Threw e])"
  by (simp add: reset_password_handler_def reset_request_def sample_env_def truthy_def invoke_def
      initiatePasswordReset_def new_Cognito_def rejecting_def str_def)

lemma status_error [simp]: "statusCode (formatErrorResponse e st) = st"
  by (simp add: formatErrorResponse_def)



























lemma login_rejecting_any:
  "u \<noteq> [] \<Longrightarrow> p \<noteq> [] \<Longrightarrow>
   handler Login (rejecting e) sample_env (login_request u p) =
     (login_catch e, [Constructed (config_of sample_env), Invoked ''login'', Threw e])"
  by (simp add: login_handler_def login_request_def sample_env_def truthy_def invoke_def
      login_def new_Cognito_def rejecting_def str_def)

section \<open>The round trip through \<open>JSON.parse\<close>\<close>

lemma and_then_Parsed [simp]: "and_then (Parsed x) f = f x"
  by (simp add: and_then_def)














lemma follows_not_ws: "follows_value (c # cs) \<Longrightarrow> \<not> json_ws c"
  by (auto simp: follows_value_def json_ws_def)





























section \<open>Claims\<close>

text \<open>
  C2. For every password string, \<open>validatePassword\<close> returns \<open>valid = true\<close> if and only if
  the string has at least 12 code units and contains an upper-case letter, a lower-case
  letter, a digit and a character that is neither letter nor digit. The error list holds
  exactly the messages of the violated checks, in the order of the checks; all five checks
  are made on the same string, so the empty string fails all five, and \<open>valid\<close> holds exactly
  when the error list is empty.
\<close>

theorem validatePassword_policy:
  "(valid (validatePassword p) \<longleftrightarrow>
      12 \<le> length p \<and> (\<exists>c\<in>set p. cls_upper c) \<and> (\<exists>c\<in>set p. cls_lower c)
      \<and> (\<exists>c\<in>set p. cls_digit c) \<and> (\<exists>c\<in>set p. cls_symbol c))
   \<and> errors (validatePassword p) =
        (if length p < 12 then [''Password must be at least 12 characters''] else [])
        @ (if \<exists>c\<in>set p. cls_upper c then [] else [''Password must contain uppercase letters''])
        @ (if \<exists>c\<in>set p. cls_lower c then [] else [''Password must contain lowercase letters''])
        @ (if \<exists>c\<in>set p. cls_digit c then [] else [''Password must contain numbers''])
        @ (if \<exists>c\<in>set p. cls_symbol c then [] else [''Password must contain symbols''])
   \<and> (valid (validatePassword p) \<longleftrightarrow> errors (validatePassword p) = [])
   \<and> errors (validatePassword []) =
        [''Password must be at least 12 characters'', ''Password must contain uppercase letters'',
         ''Password must contain lowercase letters'', ''Password must contain numbers'',
         ''Password must contain symbols'']"
  by (simp add: validatePassword_def test_class_def list_ex_iff Let_def)

theorem validatePassword_policy_witness:
  "valid (validatePassword ''NewSecurePass123!'')
   \<and> errors (validatePassword ''Short1!'') = [''Password must be at least 12 characters'']
   \<and> errors (validatePassword ''weak'') =
        [''Password must be at least 12 characters'', ''Password must contain uppercase letters'',
         ''Password must contain numbers'', ''Password must contain symbols'']"
proof -
  have c: "cls_upper CHR ''N''" "cls_lower CHR ''e''" "cls_digit CHR ''1''" "cls_symbol CHR ''!''"
    "cls_upper CHR ''S''" "cls_lower CHR ''h''"
    by (simp_all add: cls_upper_def cls_lower_def cls_digit_def cls_symbol_def in_range_def)
  have w: "\<forall>c\<in>set ''weak''. cls_lower c"
    by (simp add: cls_lower_def in_range_def)
  have nw: "\<not> (\<exists>c\<in>set ''weak''. cls_upper c)" "\<not> (\<exists>c\<in>set ''weak''. cls_digit c)"
     "\<not> (\<exists>c\<in>set ''weak''. cls_symbol c)"
    by (simp_all add: cls_upper_def cls_lower_def cls_digit_def cls_symbol_def in_range_def)
  show ?thesis
    using validatePassword_policy[of "''NewSecurePass123!''"]
      validatePassword_policy[of "''Short1!''"] validatePassword_policy[of "''weak''"] c w nw
    by auto
qed

text \<open>
  C8. \<open>validateEmail\<close> accepts exactly the strings of the shape: one or more characters
  that are neither whitespace nor \<open>@\<close>, then \<open>@\<close>, then one or more such characters, then a
  dot, then one or more such characters. It rejects every string without \<open>@\<close>, every
  string with no dot behind an \<open>@\<close>, every string with a whitespace character and every
  string with a second \<open>@\<close>; it accepts \<open>a@b.c\<close>.
\<close>

theorem validateEmail_shape:
  "(validateEmail s \<longleftrightarrow>
     (\<exists>a b c. s = a @ ''@'' @ b @ ''.'' @ c \<and> a \<noteq> [] \<and> b \<noteq> [] \<and> c \<noteq> [] \<and>
        (\<forall>x\<in>set a. cls_segment x) \<and> (\<forall>x\<in>set b. cls_segment x) \<and> (\<forall>x\<in>set c. cls_segment x)))
   \<and> (CHR ''@'' \<notin> set s \<longrightarrow> \<not> validateEmail s)
   \<and> ((\<nexists>pre mid post. s = pre @ ''@'' @ mid @ ''.'' @ post) \<longrightarrow> \<not> validateEmail s)
   \<and> ((\<exists>x\<in>set s. cls_space x) \<longrightarrow> \<not> validateEmail s)
   \<and> (1 < length (filter (\<lambda>x. x = CHR ''@'') s) \<longrightarrow> \<not> validateEmail s)
   \<and> validateEmail ''a@b.c''"
proof (intro conjI impI)
  show "validateEmail ''a@b.c''"
    by (simp add: validateEmail_def emailRegex_def plus_def cls_segment_def cls_space_def)
next
  assume "CHR ''@'' \<notin> set s" then show "\<not> validateEmail s"
    unfolding validateEmail_iff by auto
next
  assume "\<nexists>pre mid post. s = pre @ ''@'' @ mid @ ''.'' @ post"
  then show "\<not> validateEmail s" unfolding validateEmail_iff by blast
next
  assume "\<exists>x\<in>set s. cls_space x"
  then obtain x where x: "x \<in> set s" "cls_space x" by blast
  show "\<not> validateEmail s"
  proof
    assume "validateEmail s"
    then obtain a b c where s: "s = a @ ''@'' @ b @ ''.'' @ c"
      and seg: "\<forall>x\<in>set a. cls_segment x" "\<forall>x\<in>set b. cls_segment x" "\<forall>x\<in>set c. cls_segment x"
      unfolding validateEmail_iff by blast
    from x(1) have "x \<in> set a \<or> x \<in> set b \<or> x \<in> set c \<or> x = CHR ''@'' \<or> x = CHR ''.''"
      unfolding s by auto
    moreover have "\<not> cls_space CHR ''@''" "\<not> cls_space CHR ''.''"
      by (simp_all add: cls_space_def)
    ultimately show False using seg x(2) unfolding cls_segment_def by blast
  qed
next
  assume two: "1 < length (filter (\<lambda>x. x = CHR ''@'') s)"
  show "\<not> validateEmail s"
  proof
    assume "validateEmail s"
    then obtain a b c where s: "s = a @ ''@'' @ b @ ''.'' @ c"
      and seg: "\<forall>x\<in>set a. cls_segment x" "\<forall>x\<in>set b. cls_segment x" "\<forall>x\<in>set c. cls_segment x"
      unfolding validateEmail_iff by blast
    have none: "filter (\<lambda>x. x = CHR ''@'') w = []" if "\<forall>x\<in>set w. cls_segment x" for w
      using that unfolding cls_segment_def filter_empty_conv by blast
    have "filter (\<lambda>x. x = CHR ''@'') s = ''@''"
      unfolding s by (simp add: none[OF seg(1)] none[OF seg(2)] none[OF seg(3)])
    with two show False by simp
  qed
qed (rule validateEmail_iff)

theorem validateEmail_shape_witness:
  "CHR ''@'' \<notin> set ''abc'' \<and> \<not> validateEmail ''abc''
   \<and> (\<exists>x\<in>set ''a b@c.d''. cls_space x) \<and> \<not> validateEmail ''a b@c.d''
   \<and> 1 < length (filter (\<lambda>x. x = CHR ''@'') ''a@b@c.d'') \<and> \<not> validateEmail ''a@b@c.d''
   \<and> (\<nexists>pre mid post. ''a@b'' = pre @ ''@'' @ mid @ ''.'' @ post) \<and> \<not> validateEmail ''a@b''
   \<and> validateEmail ''a@b.c''"
proof -
  have a: "CHR ''@'' \<notin> set ''abc''" by simp
  have b: "\<exists>x\<in>set ''a b@c.d''. cls_space x" by (simp add: cls_space_def)
  have c: "1 < length (filter (\<lambda>x. x = CHR ''@'') ''a@b@c.d'')" by simp
  have d: "\<nexists>pre mid post. ''a@b'' = pre @ ''@'' @ mid @ ''.'' @ post"
  proof
    assume "\<exists>pre mid post. ''a@b'' = pre @ ''@'' @ mid @ ''.'' @ post"
    then obtain pre mid post where "''a@b'' = pre @ ''@'' @ mid @ ''.'' @ post" by blast
    then have "set ''a@b'' = set (pre @ ''@'' @ mid @ ''.'' @ post)" by simp
    then have "CHR ''.'' \<in> set ''a@b''" by simp
    then show False by simp
  qed
  have 1: "\<not> validateEmail ''abc''"
    using validateEmail_shape[of "''abc''", THEN conjunct2, THEN conjunct1] a by blast
  have 2: "\<not> validateEmail ''a@b''"
    using validateEmail_shape[of "''a@b''", THEN conjunct2, THEN conjunct2, THEN conjunct1] d
    by blast
  have 3: "\<not> validateEmail ''a b@c.d''"
    using validateEmail_shape[of "''a b@c.d''", THEN conjunct2, THEN conjunct2, THEN conjunct2,
      THEN conjunct1] b by blast
  have 4: "\<not> validateEmail ''a@b@c.d''"
    using validateEmail_shape[of "''a@b@c.d''", THEN conjunct2, THEN conjunct2, THEN conjunct2,
      THEN conjunct2, THEN conjunct1] c by blast
  have 5: "validateEmail ''a@b.c''"
    using validateEmail_shape[of "[]", THEN conjunct2, THEN conjunct2, THEN conjunct2,
      THEN conjunct2, THEN conjunct2] .
  show ?thesis using a b c d 1 2 3 4 5 by (intro conjI)
qed

text \<open>
  C1. For every handler and every error thrown by the gateway client, except the
  second-factor signal of \<open>login\<close> (an error whose message starts with \<open>MFA_REQUIRED:\<close>,
  which \<open>login.ts\<close> answers with a 200 body that has a \<open>session\<close> field), the body of the
  response, lower-case-normalised, contains none of \<open>password\<close>, \<open>token\<close>, \<open>session\<close>.
  \<open>formatErrorResponse\<close> replaces each case-insensitive occurrence of the three words in
  the message by \<open>[REDACTED]\<close>, and the message so sanitised (code units 0..255) contains
  none of them. The claim as written, for every thrown error, fails at the second-factor
  signal: the counterexample comes first.
\<close>

theorem challenge_body_counterexample:
  "Threw (new_Error ''MFA_REQUIRED:sess123'')
      \<in> set (snd (handler Login (challenging ''sess123'') sample_env (login_request ''alice'' ''pw'')))
   \<and> \<not> redacted (fst (handler Login (challenging ''sess123'') sample_env
                          (login_request ''alice'' ''pw'')))"
proof -
  have "leaks (''{'' @ CHR 0x22 # ''challengeName'' @ CHR 0x22 # '':'' @ CHR 0x22 # ''MFA_REQUIRED''
       @ CHR 0x22 # '','' @ CHR 0x22 # ''session'' @ CHR 0x22 # '':'' @ CHR 0x22 # ''sess123''
       @ CHR 0x22 # '','' @ CHR 0x22 # ''message'' @ CHR 0x22 # '':'' @ CHR 0x22 #
       ''MFA verification required. Please provide MFA code.'' @ CHR 0x22 # ''}'')"
    by code_simp
  moreover have "handler Login (challenging ''sess123'') sample_env (login_request ''alice'' ''pw'') =
     (login_catch (new_Error ''MFA_REQUIRED:sess123''),
      [Constructed (config_of sample_env), Invoked ''login'',
       Threw (new_Error ''MFA_REQUIRED:sess123'')])"
    using login_challenging[of "''sess123''"] by simp
  ultimately show ?thesis
    by (simp add: redacted_def challenge_body_sess123)
qed

theorem gateway_error_redacted:
  "(Threw e \<in> set (snd (handler h provider env parsed)) \<and> \<not> (h = Login \<and> is_challenge e)
      \<longrightarrow> redacted (fst (handler h provider env parsed)))
   \<and> \<not> leaks (sanitize msg)"
proof (intro conjI impI)
  assume a: "Threw e \<in> set (snd (handler h provider env parsed)) \<and> \<not> (h = Login \<and> is_challenge e)"
  then have "fst (handler h provider env parsed) = catch_block h e" by (simp add: handler_threw)
  moreover have "redacted (catch_block h e)"
    using a by (cases h)
      (simp_all add: signup_catch_redacted verification_catch_redacted login_catch_redacted
         mfa_catch_redacted set_new_password_catch_redacted reset_password_catch_redacted
         is_challenge_def)
  ultimately show "redacted (fst (handler h provider env parsed))" by simp
qed (rule sanitize_clean)

theorem gateway_error_redacted_witness:
  "Threw \<lparr>name = Some ''NotAuthorizedException'', message = ''Incorrect password or token''\<rparr>
     \<in> set (snd (handler Login
           (rejecting \<lparr>name = Some ''NotAuthorizedException'', message = ''Incorrect password or token''\<rparr>)
           sample_env (login_request ''alice'' ''pw'')))
   \<and> \<not> (Login = Login \<and>
          is_challenge \<lparr>name = Some ''NotAuthorizedException'', message = ''Incorrect password or token''\<rparr>)
   \<and> redacted (fst (handler Login
           (rejecting \<lparr>name = Some ''NotAuthorizedException'', message = ''Incorrect password or token''\<rparr>)
           sample_env (login_request ''alice'' ''pw'')))"
proof -
  let ?e = "\<lparr>name = Some ''NotAuthorizedException'', message = ''Incorrect password or token''\<rparr>"
  have t: "Threw ?e \<in> set (snd (handler Login (rejecting ?e) sample_env (login_request ''alice'' ''pw'')))"
    unfolding login_rejecting by simp
  have c: "\<not> (Login = Login \<and> is_challenge ?e)"
    by (simp add: is_challenge_def startsWith_def)
  from gateway_error_redacted[of ?e Login "rejecting ?e" sample_env "login_request ''alice'' ''pw''", THEN conjunct1]
    t c
  have "redacted (fst (handler Login (rejecting ?e) sample_env (login_request ''alice'' ''pw'')))"
    by blast
  with t c show ?thesis by blast
qed

text \<open>
  C6. For the login handler, a gateway failure named \<open>UserNotFoundException\<close> and a gateway
  failure named \<open>NotAuthorizedException\<close>, neither of them the second-factor signal,
  produce the same envelope: status 401 and the same body, whose message is the sanitised
  text \<open>Incorrect username or [REDACTED]\<close>. \<open>login.ts\<close> tests the message for the
  prefix \<open>MFA_REQUIRED:\<close> before it looks at the name, so an error of either name whose
  message starts with that prefix is answered with the 200 challenge body. The claim as
  written, for every failure of the two names, fails there: the counterexample comes first.
\<close>

theorem login_not_found_challenge_counterexample:
  \<open>Threw \<lparr>name = Some ''UserNotFoundException'', message = ''MFA_REQUIRED:x''\<rparr>
      \<in> set (snd (handler Login
            (rejecting \<lparr>name = Some ''UserNotFoundException'', message = ''MFA_REQUIRED:x''\<rparr>)
            sample_env (login_request ''nobody'' ''pw'')))
   \<and> statusCode (fst (handler Login
            (rejecting \<lparr>name = Some ''UserNotFoundException'', message = ''MFA_REQUIRED:x''\<rparr>)
            sample_env (login_request ''nobody'' ''pw''))) = 200
   \<and> Threw \<lparr>name = Some ''NotAuthorizedException'', message = ''Incorrect username or password.''\<rparr>
      \<in> set (snd (handler Login
            (rejecting \<lparr>name = Some ''NotAuthorizedException'', message = ''Incorrect username or password.''\<rparr>)
            sample_env (login_request ''alice'' ''wrong'')))
   \<and> statusCode (fst (handler Login
            (rejecting \<lparr>name = Some ''NotAuthorizedException'', message = ''Incorrect username or password.''\<rparr>)
            sample_env (login_request ''alice'' ''wrong''))) = 401\<close>
proof -
  let ?e1 = "\<lparr>name = Some ''UserNotFoundException'', message = ''MFA_REQUIRED:x''\<rparr>"
  let ?e2 = "\<lparr>name = Some ''NotAuthorizedException'', message = ''Incorrect username or password.''\<rparr>"
  have h1: "handler Login (rejecting ?e1) sample_env (login_request ''nobody'' ''pw'') =
      (login_catch ?e1, [Constructed (config_of sample_env), Invoked ''login'', Threw ?e1])"
    by (rule login_rejecting_any) simp_all
  have h2: "handler Login (rejecting ?e2) sample_env (login_request ''alice'' ''wrong'') =
      (login_catch ?e2, [Constructed (config_of sample_env), Invoked ''login'', Threw ?e2])"
    by (rule login_rejecting_any) simp_all
  have s1: "statusCode (login_catch ?e1) = 200"
    by (simp add: login_catch_def startsWith_def formatSuccessResponse_def)
  have s2: "statusCode (login_catch ?e2) = 401"
    by (simp add: login_catch_def startsWith_def)
  show ?thesis unfolding h1 h2 by (simp add: s1 s2)
qed

theorem login_not_found_same_as_not_authorized:
  assumes \<open>Threw e1 \<in> set (snd (handler Login p1 env1 parsed1))\<close>
    and \<open>name e1 = Some ''UserNotFoundException''\<close> and \<open>\<not> is_challenge e1\<close>
    and \<open>Threw e2 \<in> set (snd (handler Login p2 env2 parsed2))\<close>
    and \<open>name e2 = Some ''NotAuthorizedException''\<close> and \<open>\<not> is_challenge e2\<close>
  shows \<open>fst (handler Login p1 env1 parsed1) = fst (handler Login p2 env2 parsed2)
    \<and> statusCode (fst (handler Login p1 env1 parsed1)) = 401
    \<and> body (fst (handler Login p1 env1 parsed1)) =
        Some ''{"error":{"code":"Error","message":"Incorrect username or [REDACTED]"}}''\<close>
proof -
  have 1: "fst (handler Login p1 env1 parsed1) =
      formatErrorResponse (new_Error ''Incorrect username or password'') 401"
    using handler_threw[OF assms(1)] login_catch_credentials[OF assms(3)] assms(2) by simp
  have 2: "fst (handler Login p2 env2 parsed2) =
      formatErrorResponse (new_Error ''Incorrect username or password'') 401"
    using handler_threw[OF assms(4)] login_catch_credentials[OF assms(6)] assms(5) by simp
  have p: "list_all plain ''Incorrect username or password''" by (simp add: plain_def)
  show ?thesis
    unfolding 1 2 by (simp add: error_body[OF p] sanitize_incorrect)
qed

theorem login_not_found_same_as_not_authorized_witness:
  \<open>Threw \<lparr>name = Some ''UserNotFoundException'', message = ''User does not exist.''\<rparr>
      \<in> set (snd (handler Login
            (rejecting \<lparr>name = Some ''UserNotFoundException'', message = ''User does not exist.''\<rparr>)
            sample_env (login_request ''nobody'' ''pw'')))
   \<and> Threw \<lparr>name = Some ''NotAuthorizedException'', message = ''Incorrect username or password.''\<rparr>
      \<in> set (snd (handler Login
            (rejecting \<lparr>name = Some ''NotAuthorizedException'', message = ''Incorrect username or password.''\<rparr>)
            sample_env (login_request ''alice'' ''wrong'')))
   \<and> fst (handler Login
            (rejecting \<lparr>name = Some ''UserNotFoundException'', message = ''User does not exist.''\<rparr>)
            sample_env (login_request ''nobody'' ''pw''))
     = fst (handler Login
            (rejecting \<lparr>name = Some ''NotAuthorizedException'', message = ''Incorrect username or password.''\<rparr>)
            sample_env (login_request ''alice'' ''wrong''))
   \<and> statusCode (fst (handler Login
            (rejecting \<lparr>name = Some ''UserNotFoundException'', message = ''User does not exist.''\<rparr>)
            sample_env (login_request ''nobody'' ''pw''))) = 401\<close>
proof -
  let ?e1 = "\<lparr>name = Some ''UserNotFoundException'', message = ''User does not exist.''\<rparr>"
  let ?e2 = "\<lparr>name = Some ''NotAuthorizedException'', message = ''Incorrect username or password.''\<rparr>"
  have r: "\<And>e u p. snd (handler Login (rejecting e) sample_env (login_request u p)) =
      (if u = [] \<or> p = [] then [] else [Constructed (config_of sample_env), Invoked ''login'', Threw e])"
    by (simp add: login_handler_def login_request_def sample_env_def truthy_def invoke_def
      login_def new_Cognito_def rejecting_def str_def)
  have t1: "Threw ?e1 \<in> set (snd (handler Login (rejecting ?e1) sample_env (login_request ''nobody'' ''pw'')))"
    unfolding r by simp
  have t2: "Threw ?e2 \<in> set (snd (handler Login (rejecting ?e2) sample_env (login_request ''alice'' ''wrong'')))"
    unfolding r by simp
  have n1: "name ?e1 = Some ''UserNotFoundException''" by simp
  have n2: "name ?e2 = Some ''NotAuthorizedException''" by simp
  have c1: "\<not> is_challenge ?e1" by (simp add: is_challenge_def startsWith_def)
  have c2: "\<not> is_challenge ?e2" by (simp add: is_challenge_def startsWith_def)
  from login_not_found_same_as_not_authorized[OF t1 n1 c1 t2 n2 c2] t1 t2
  show ?thesis by blast
qed

text \<open>
  C3. When the gateway signals a second-factor challenge during login, the login handler
  returns a 200 envelope whose body has \<open>challengeName\<close> \<open>MFA_REQUIRED\<close> and a \<open>session\<close>
  field. The claim says the field equals the session token for every token. The code
  carries the token inside the error message \<open>MFA_REQUIRED:<session>\<close> and takes it back
  with \<open>split(':')[1]\<close>, so the field is the token up to its first colon
  (\<open>login_catch_challenge\<close>): a token with a colon arrives cut, as evaluated here.
\<close>

theorem login_challenge_session_truncated:
  \<open>statusCode (fst (handler Login (challenging ''AYABeC1-y8qooiuysEv0:uM4wAqQAHQ'') sample_env
       (login_request ''alice'' ''pw''))) = 200
   \<and> body (fst (handler Login (challenging ''AYABeC1-y8qooiuysEv0:uM4wAqQAHQ'') sample_env
       (login_request ''alice'' ''pw''))) =
     Some ''{"challengeName":"MFA_REQUIRED","session":"AYABeC1-y8qooiuysEv0","message":"MFA verification required. Please provide MFA code."}''\<close>
proof -
  have k: "quote ''challengeName'' = CHR 0x22 # ''challengeName'' @ [CHR 0x22]"
    "quote ''MFA_REQUIRED'' = CHR 0x22 # ''MFA_REQUIRED'' @ [CHR 0x22]"
    "quote ''session'' = CHR 0x22 # ''session'' @ [CHR 0x22]"
    "quote ''message'' = CHR 0x22 # ''message'' @ [CHR 0x22]"
    "quote ''MFA verification required. Please provide MFA code.'' =
       CHR 0x22 # ''MFA verification required. Please provide MFA code.'' @ [CHR 0x22]"
    by (rule quote_plain, simp add: plain_def)+
  show ?thesis
    unfolding login_challenging login_catch_challenge
    by (simp add: formatSuccessResponse_def JSON_stringify_def k quote_session)
qed

text \<open>
  C10. \<open>formatErrorResponse\<close> redacts the message only. The name of the error goes into
  \<open>body.error.code\<close> as it is (\<open>InternalError\<close> when the name is absent or empty), so a name
  that contains one of the three words shows it in the body; for the error named
  \<open>TokenExpiredError\<close> the body contains \<open>token\<close> although the message is redacted.
\<close>

theorem error_code_not_redacted:
  \<open>(name e = None \<or> name e = Some [] \<longrightarrow>
      body (formatErrorResponse e st) =
        Some (''{"error":{"code":"InternalError","message":'' @ quote (sanitize (message e)) @ ''}}''))
   \<and> (name e = Some n \<and> n \<noteq> [] \<longrightarrow>
      body (formatErrorResponse e st) =
        Some (''{"error":{"code":'' @ quote n @ '',"message":'' @ quote (sanitize (message e)) @ ''}}''))
   \<and> (name e = Some n \<and> n \<noteq> [] \<and> list_all plain n \<and> mentions w n \<longrightarrow>
      (\<exists>text. body (formatErrorResponse e st) = Some text \<and> mentions w text))
   \<and> body (formatErrorResponse
         \<lparr>name = Some ''TokenExpiredError'', message = ''The token has expired''\<rparr> 401) =
       Some ''{"error":{"code":"TokenExpiredError","message":"The [REDACTED] has expired"}}''
   \<and> \<not> redacted (formatErrorResponse
         \<lparr>name = Some ''TokenExpiredError'', message = ''The token has expired''\<rparr> 401)\<close>
proof (intro conjI impI)
  assume "name e = None \<or> name e = Some []"
  then show \<open>body (formatErrorResponse e st) =
        Some (''{"error":{"code":"InternalError","message":'' @ quote (sanitize (message e)) @ ''}}'')\<close>
    by (rule error_body_unnamed)
next
  assume "name e = Some n \<and> n \<noteq> []"
  then show \<open>body (formatErrorResponse e st) =
        Some (''{"error":{"code":'' @ quote n @ '',"message":'' @ quote (sanitize (message e)) @ ''}}'')\<close>
    by (simp add: error_body_named)
next
  assume a: "name e = Some n \<and> n \<noteq> [] \<and> list_all plain n \<and> mentions w n"
  then have q: "quote n = [CHR 0x22] @ n @ [CHR 0x22]" by (simp add: quote_plain)
  have \<open>mentions w ((''{"error":{"code":'' @ [CHR 0x22]) @ n @
      ([CHR 0x22] @ '',"message":'' @ quote (sanitize (message e)) @ ''}}''))\<close>
    using a by (intro mentions_inside) simp
  then have \<open>mentions w (''{"error":{"code":'' @ quote n @ '',"message":'' @
      quote (sanitize (message e)) @ ''}}'')\<close>
    unfolding q by simp
  moreover have \<open>body (formatErrorResponse e st) =
        Some (''{"error":{"code":'' @ quote n @ '',"message":'' @ quote (sanitize (message e)) @ ''}}'')\<close>
    using a by (simp add: error_body_named)
  ultimately show "\<exists>text. body (formatErrorResponse e st) = Some text \<and> mentions w text"
    by blast
next
  have s: "sanitize ''The token has expired'' = ''The [REDACTED] has expired''" by code_simp
  have q: "quote ''TokenExpiredError'' = CHR 0x22 # ''TokenExpiredError'' @ [CHR 0x22]"
    "quote ''The [REDACTED] has expired'' = CHR 0x22 # ''The [REDACTED] has expired'' @ [CHR 0x22]"
    by (rule quote_plain, simp add: plain_def)+
  show b: \<open>body (formatErrorResponse
         \<lparr>name = Some ''TokenExpiredError'', message = ''The token has expired''\<rparr> 401) =
       Some ''{"error":{"code":"TokenExpiredError","message":"The [REDACTED] has expired"}}''\<close>
    by (simp add: error_body_named s q)
  have \<open>leaks ''{"error":{"code":"TokenExpiredError","message":"The [REDACTED] has expired"}}''\<close>
    by code_simp
  then show \<open>\<not> redacted (formatErrorResponse
         \<lparr>name = Some ''TokenExpiredError'', message = ''The token has expired''\<rparr> 401)\<close>
    unfolding redacted_def b by simp
qed

theorem error_code_not_redacted_witness:
  \<open>body (formatErrorResponse \<lparr>name = None, message = ''boom''\<rparr> 500) =
      Some (''{"error":{"code":"InternalError","message":'' @ quote (sanitize ''boom'') @ ''}}'')
   \<and> mentions ''session'' ''SessionExpired''
   \<and> (\<exists>text. body (formatErrorResponse \<lparr>name = Some ''SessionExpired'', message = ''boom''\<rparr> 500)
         = Some text \<and> mentions ''session'' text)\<close>
proof -
  have m: "mentions ''session'' ''SessionExpired''" by code_simp
  have p: "list_all plain ''SessionExpired''" by (simp add: plain_def)
  have 1: \<open>body (formatErrorResponse \<lparr>name = None, message = ''boom''\<rparr> 500) =
      Some (''{"error":{"code":"InternalError","message":'' @ quote (sanitize ''boom'') @ ''}}'')\<close>
    using error_code_not_redacted[of "\<lparr>name = None, message = ''boom''\<rparr>" 500, THEN conjunct1]
    by simp
  have 2: "\<exists>text. body (formatErrorResponse \<lparr>name = Some ''SessionExpired'', message = ''boom''\<rparr> 500)
         = Some text \<and> mentions ''session'' text"
    using error_code_not_redacted[of "\<lparr>name = Some ''SessionExpired'', message = ''boom''\<rparr>" 500
        "''SessionExpired''" "''session''", THEN conjunct2, THEN conjunct2, THEN conjunct1] m p
    by simp
  from 1 m 2 show ?thesis by (intro conjI)
qed

text \<open>
  C7. For every handler and every input (any parsed body, any configuration, any
  behaviour of the provider), at most one operation of the gateway client is invoked while
  a request is handled, and it is an operation of that handler. The reset-password handler
  invokes \<open>initiatePasswordReset\<close> or \<open>resetPassword\<close> or nothing, never both.
\<close>

theorem at_most_one_gateway_operation:
  "length (invocations (snd (handler h provider env parsed))) \<le> 1
   \<and> set (invocations (snd (handler h provider env parsed))) \<subseteq> set (operations h)
   \<and> invocations (snd (handler ResetPassword provider env parsed))
        \<in> {[], [''initiatePasswordReset''], [''resetPassword'']}"
proof -
  have "invocations (snd (handler h provider env parsed)) = []
      \<or> (\<exists>op \<in> set (operations h). invocations (snd (handler h provider env parsed)) = [op])"
    using signup_invocations[of provider env parsed] verification_invocations[of provider env parsed]
      login_invocations[of provider env parsed] mfa_invocations[of provider env parsed]
      set_new_password_invocations[of provider env parsed]
      reset_password_invocations[of provider env parsed]
    by (cases h) auto
  then have "length (invocations (snd (handler h provider env parsed))) \<le> 1
   \<and> set (invocations (snd (handler h provider env parsed))) \<subseteq> set (operations h)"
    by auto
  then show ?thesis using reset_password_invocations[of provider env parsed] by simp
qed

theorem at_most_one_gateway_operation_witness:
  "invocations (snd (handler ResetPassword
       (rejecting \<lparr>name = Some ''UserNotFoundException'', message = ''User does not exist.''\<rparr>)
       sample_env (reset_request ''initiate'' ''alice''))) = [''initiatePasswordReset'']
   \<and> length (invocations (snd (handler ResetPassword
       (rejecting \<lparr>name = Some ''UserNotFoundException'', message = ''User does not exist.''\<rparr>)
       sample_env (reset_request ''initiate'' ''alice'')))) \<le> 1"
proof -
  let ?p = "rejecting \<lparr>name = Some ''UserNotFoundException'', message = ''User does not exist.''\<rparr>"
  have 1: "invocations (snd (handler ResetPassword ?p sample_env (reset_request ''initiate'' ''alice'')))
      = [''initiatePasswordReset'']"
    unfolding reset_initiate_rejecting by simp
  have 2: "length (invocations (snd (handler ResetPassword ?p sample_env
      (reset_request ''initiate'' ''alice'')))) \<le> 1"
    by (rule at_most_one_gateway_operation[of ResetPassword ?p sample_env
          "reset_request ''initiate'' ''alice''", THEN conjunct1])
  from 1 2 show ?thesis by (intro conjI)
qed










end
